theory Spec2Isabelle
  imports Complex_Main "HOL-Library.Sublist"
begin

section \<open>Python primitives used by the recruitment-plot database code\<close>

text \<open>
  The program is \<^verbatim>\<open>recplot_database_prep_revisions_bams.py\<close>.  Python integers are
  modelled by \<^typ>\<open>int\<close>.  Python floats are modelled by \<^typ>\<open>rat\<close>: every operation is
  taken exactly, so the rounding of double precision is not part of the model (the values
  that the scenarios below go through, multiples of one half and 15/16, are exact in
  double precision).  Every exception the code can raise is a value of \<open>error\<close>.
\<close>

datatype error =
    TypeError
  | ZeroDivisionError
  | IndexError
  | ValueError
  | KeyError
  | FileNotFoundError
  | OperationalError
  | IntegrityError
  | AssertionError

text \<open>\<^verbatim>\<open>int(x)\<close> of a float, and numpy's cast of a float to an integer dtype: truncation
  towards zero.\<close>

definition py_trunc :: "rat \<Rightarrow> int" where
  "py_trunc q = (if 0 \<le> q then \<lfloor>q\<rfloor> else \<lceil>q\<rceil>)"

text \<open>Python indexing \<^verbatim>\<open>xs[i]\<close> of a list or a numpy array: a negative index counts
  from the end, anything outside \<open>[-len, len)\<close> raises IndexError.\<close>

definition py_index :: "'a list \<Rightarrow> int \<Rightarrow> error + nat" where
  "py_index xs i =
     (if 0 \<le> i \<and> i < int (length xs) then Inr (nat i)
      else if - int (length xs) \<le> i \<and> i < 0 then Inr (nat (int (length xs) + i))
      else Inl IndexError)"

section \<open>Matrix builder: \<^verbatim>\<open>prepare_numpy_matrices\<close>\<close>

subsection \<open>Identity breaks\<close>

text \<open>
  \<^verbatim>\<open>
  id_breaks = []
  current_break = 100
  while current_break > id_lower:
      id_breaks.append(current_break)
      current_break -= bin_height
  id_breaks = np.array(id_breaks[::-1])
  \<close>
  The loop does not end when \<open>bin_height \<le> 0\<close> and \<open>id_lower < 100\<close>, so it is a partial
  function: \<open>None\<close> is "does not return".
\<close>

partial_function (option) id_breaks_loop :: "rat list \<Rightarrow> rat \<Rightarrow> rat \<Rightarrow> rat \<Rightarrow> rat list option" where
  "id_breaks_loop id_breaks current_break bin_height id_lower =
     (if current_break > id_lower
      then id_breaks_loop (id_breaks @ [current_break]) (current_break - bin_height) bin_height id_lower
      else Some id_breaks)"

declare id_breaks_loop.simps [code]

definition identity_breaks :: "rat \<Rightarrow> rat \<Rightarrow> rat list option" where
  "identity_breaks bin_height id_lower = map_option rev (id_breaks_loop [] 100 bin_height id_lower)"

subsection \<open>Position bins of one contig\<close>

text \<open>
  \<^verbatim>\<open>np.linspace(start, stop, num=num, dtype=np.uint64, endpoint=False)\<close>: numpy computes
  \<open>step = (stop - start) / num\<close> and the samples \<open>i * step + start\<close> for \<open>i = 0 .. num - 1\<close>
  in floating point, then casts them to the integer dtype.
\<close>

definition linspace :: "int \<Rightarrow> int \<Rightarrow> nat \<Rightarrow> int list" where
  "linspace start stop num =
     (let step = (of_int stop - of_int start) / of_nat num
      in map (\<lambda>i. py_trunc (of_nat i * step + of_int start)) [0..<num])"

text \<open>
  The body of the loop over the contigs of the MAG:
  \<^verbatim>\<open>
  num_bins = int(contig_length / width)
  if num_bins < 1:
      num_bins = 1
  starts = np.linspace(1, contig_length, num = num_bins, dtype = np.uint64, endpoint = False)
  ends = np.append(starts[1:]-1, contig_length)
  \<close>
\<close>

definition position_bins :: "int \<Rightarrow> int \<Rightarrow> error + (int list \<times> int list)" where
  "position_bins contig_length width =
     (if width = 0 then Inl ZeroDivisionError
      else
        let num_bins = py_trunc (of_int contig_length / of_int width);
            num_bins = (if num_bins < 1 then 1 else num_bins);
            starts = linspace 1 contig_length (nat num_bins);
            ends = map (\<lambda>s. s - 1) (drop 1 starts) @ [contig_length]
        in Inr (starts, ends))"

section \<open>Matrix filler: \<^verbatim>\<open>fill_matrices\<close>\<close>

text \<open>
  The standard library's \<^verbatim>\<open>bisect.bisect_right(a, x)\<close> and \<^verbatim>\<open>bisect.bisect_left(a, x)\<close>,
  as binary searches between \<open>lo = 0\<close> and \<open>hi = len(a)\<close>:
  \<^verbatim>\<open>
  while lo < hi:
      mid = (lo + hi) // 2
      if x < a[mid]: hi = mid        # bisect_right
      else: lo = mid + 1
  while lo < hi:
      mid = (lo + hi) // 2
      if a[mid] < x: lo = mid + 1    # bisect_left
      else: hi = mid
  return lo
  \<close>
\<close>

function bisect_right :: "'a::linorder list \<Rightarrow> 'a \<Rightarrow> nat \<Rightarrow> nat \<Rightarrow> nat" where
  "bisect_right a x lo hi =
     (if lo < hi
      then let mid = (lo + hi) div 2
           in if x < a ! mid then bisect_right a x lo mid else bisect_right a x (mid + 1) hi
      else lo)"
  by pat_completeness auto
termination
  by (relation "measure (\<lambda>(a, x, lo, hi). hi - lo)") auto

function bisect_left :: "'a::linorder list \<Rightarrow> 'a \<Rightarrow> nat \<Rightarrow> nat \<Rightarrow> nat" where
  "bisect_left a x lo hi =
     (if lo < hi
      then let mid = (lo + hi) div 2
           in if a ! mid < x then bisect_left a x (mid + 1) hi else bisect_left a x lo mid
      else lo)"
  by pat_completeness auto
termination
  by (relation "measure (\<lambda>(a, x, lo, hi). hi - lo)") auto

declare bisect_right.simps [simp del] bisect_left.simps [simp del]

text \<open>
  A stored hit is the row \<open>(mag_id, contig_id, identity, start, stop)\<close>.  The matrices of a
  MAG are a dictionary from contig id to \<open>[starts, ends, counts]\<close>, where \<open>counts\<close> has one
  row per identity break and one column per position bin.  The counts are modelled by
  unbounded integers: what is proved below is about the amounts added to the cells.
\<close>

type_synonym hit = "int \<times> int \<times> rat \<times> int \<times> int"

type_synonym contig_matrix = "int list \<times> int list \<times> int list list"

type_synonym matrices = "int \<rightharpoonup> contig_matrix"

text \<open>\<^verbatim>\<open>arr[i][j] += v\<close>: both subscripts are Python subscripts.\<close>

definition add_cell :: "int list list \<Rightarrow> int \<Rightarrow> int \<Rightarrow> int \<Rightarrow> error + int list list" where
  "add_cell arr i j v =
     (case py_index arr i of
        Inl e \<Rightarrow> Inl e
      | Inr r \<Rightarrow>
          (case py_index (arr ! r) j of
             Inl e \<Rightarrow> Inl e
           | Inr c \<Rightarrow> Inr (arr[r := (arr ! r)[c := arr ! r ! c + v]])))"

text \<open>
  The loop that splits a read over the bins it spans; \<open>js\<close> is what is left of
  \<^verbatim>\<open>range(read_start_loc, read_stop_loc + 1)\<close>:
  \<^verbatim>\<open>
  for j in range(read_start_loc, read_stop_loc + 1):
      overflow = read_stop - matrices[contig_id][1][j]
      if overflow > 0:
          matrices[contig_id][2][read_id_index][j] += (read_len - overflow)
          read_len = overflow
      else :
          matrices[contig_id][2][read_id_index][j] += read_len
  \<close>
\<close>

fun fill_split :: "int list \<Rightarrow> int \<Rightarrow> int \<Rightarrow> int list \<Rightarrow> int \<Rightarrow> int list list
    \<Rightarrow> error + int list list" where
  "fill_split ends read_stop read_id_index [] read_len arr = Inr arr"
| "fill_split ends read_stop read_id_index (j # js) read_len arr =
     (case py_index ends j of
        Inl e \<Rightarrow> Inl e
      | Inr jj \<Rightarrow>
          let overflow = read_stop - ends ! jj
          in if overflow > 0
             then (case add_cell arr read_id_index j (read_len - overflow) of
                     Inl e \<Rightarrow> Inl e
                   | Inr arr' \<Rightarrow> fill_split ends read_stop read_id_index js overflow arr')
             else (case add_cell arr read_id_index j read_len of
                     Inl e \<Rightarrow> Inl e
                   | Inr arr' \<Rightarrow> fill_split ends read_stop read_id_index js read_len arr'))"

text \<open>
  The body of the loop over the rows of the cursor:
  \<^verbatim>\<open>
  if read_mapped[1] in matrices:
      contig_id = read_mapped[1]
      read_start = read_mapped[3]
      read_stop = read_mapped[4]
      read_len = read_stop - read_start + 1
      read_id_index = bisect.bisect_right(id_breaks, read_mapped[2]) - 1
      read_start_loc = bisect.bisect_left(matrices[contig_id][1], read_start)
      read_stop_loc = bisect.bisect_left(matrices[contig_id][1], read_stop)
      if read_start_loc == read_stop_loc:
          matrices[contig_id][2][read_id_index][read_start_loc] += read_len
      else:
          for j in range(read_start_loc, read_stop_loc + 1): ...
  \<close>
\<close>

definition fill_read :: "rat list \<Rightarrow> matrices \<Rightarrow> hit \<Rightarrow> error + matrices" where
  "fill_read id_breaks matrices read_mapped =
     (case read_mapped of (mag, contig_id, identity, read_start, read_stop) \<Rightarrow>
        (case matrices contig_id of
           None \<Rightarrow> Inr matrices
         | Some (starts, ends, arr) \<Rightarrow>
             let read_len = read_stop - read_start + 1;
                 read_id_index = int (bisect_right id_breaks identity 0 (length id_breaks)) - 1;
                 read_start_loc = bisect_left ends read_start 0 (length ends);
                 read_stop_loc = bisect_left ends read_stop 0 (length ends)
             in (case (if read_start_loc = read_stop_loc
                       then add_cell arr read_id_index (int read_start_loc) read_len
                       else fill_split ends read_stop read_id_index
                              (map int [read_start_loc..<read_stop_loc + 1]) read_len arr) of
                   Inl e \<Rightarrow> Inl e
                 | Inr arr' \<Rightarrow> Inr (matrices(contig_id \<mapsto> (starts, ends, arr'))))))"

fun fill_reads :: "rat list \<Rightarrow> matrices \<Rightarrow> hit list \<Rightarrow> error + matrices" where
  "fill_reads id_breaks matrices [] = Inr matrices"
| "fill_reads id_breaks matrices (read_mapped # rest) =
     (case fill_read id_breaks matrices read_mapped of
        Inl e \<Rightarrow> Inl e
      | Inr matrices' \<Rightarrow> fill_reads id_breaks matrices' rest)"

section \<open>The SQLite database\<close>

text \<open>
  The tables the program creates.  \<open>lookup_table\<close> holds rows
  \<open>(mag_name, mag_id, contig_name, contig_id)\<close>, \<open>mag_info\<close> rows
  \<open>(mag_id, contig_id, contig_len)\<close>, \<open>sample_info\<close> rows
  \<open>(sample_name, sample_id, sample_number)\<close> under the unique index \<open>sample_index\<close> on
  \<open>sample_name\<close>, and \<open>mags_per_sample\<close> rows \<open>(sample_name, mag_name)\<close>.  There is one
  table of hits per sample, named by the sample id; the flag next to its rows says
  whether its index \<open><table>_index\<close> exists.  A \<^verbatim>\<open>SELECT\<close> without an order
  returns the rows in the order of insertion.
\<close>

record database =
  lookup_table :: "(string \<times> int \<times> string \<times> int) list"
  mag_info :: "(int \<times> int \<times> int) list"
  sample_info :: "(string \<times> string \<times> int) list"
  mags_per_sample :: "(string \<times> string) list"
  sample_tables :: "string \<rightharpoonup> (hit list \<times> bool)"

text \<open>\<^verbatim>\<open>DROP TABLE IF EXISTS t\<close> (the indexes of the table go with it).\<close>

definition drop_table :: "string \<Rightarrow> database \<Rightarrow> database" where
  "drop_table t db = db\<lparr>sample_tables := (sample_tables db)(t := None)\<rparr>"

text \<open>\<^verbatim>\<open>CREATE TABLE t (...)\<close> fails when the table exists.\<close>

definition create_table :: "string \<Rightarrow> database \<Rightarrow> error + database" where
  "create_table t db =
     (case sample_tables db t of
        Some old \<Rightarrow> Inl OperationalError
      | None \<Rightarrow> Inr (db\<lparr>sample_tables := (sample_tables db)(t \<mapsto> ([], False))\<rparr>))"

text \<open>\<^verbatim>\<open>executemany('INSERT INTO t VALUES(?, ?, ?, ?, ?)', records)\<close>.\<close>

definition insert_hits :: "string \<Rightarrow> hit list \<Rightarrow> database \<Rightarrow> error + database" where
  "insert_hits t records db =
     (case sample_tables db t of
        None \<Rightarrow> Inl OperationalError
      | Some (rows, indexed) \<Rightarrow>
          Inr (db\<lparr>sample_tables := (sample_tables db)(t \<mapsto> (rows @ records, indexed))\<rparr>))"

text \<open>\<^verbatim>\<open>CREATE INDEX t_index on t (mag_id)\<close> fails when the table is missing or the
  index exists.\<close>

definition create_index :: "string \<Rightarrow> database \<Rightarrow> error + database" where
  "create_index t db =
     (case sample_tables db t of
        None \<Rightarrow> Inl OperationalError
      | Some (rows, indexed) \<Rightarrow>
          if indexed then Inl OperationalError
          else Inr (db\<lparr>sample_tables := (sample_tables db)(t \<mapsto> (rows, True))\<rparr>))"

section \<open>Strings\<close>

text \<open>
  A Python \<open>str\<close> is a sequence of code points; the model has the code points below 256
  (\<^typ>\<open>char\<close>).  Among them \<^verbatim>\<open>str.isspace\<close> holds of the codes 9 to 13, 28 to 32, 133 and
  160, and \<^verbatim>\<open>str.isdigit\<close> of the ASCII digits and of the superscripts 178, 179
  and 185, which the regular expression \<^verbatim>\<open>[0-9]\<close> does not match.
\<close>

definition py_isspace :: "char \<Rightarrow> bool" where
  "py_isspace c = (let n = of_char c :: nat
     in (9 \<le> n \<and> n \<le> 13) \<or> (28 \<le> n \<and> n \<le> 32) \<or> n = 133 \<or> n = 160)"

definition ascii_digit :: "char \<Rightarrow> bool" where
  "ascii_digit c = (let n = of_char c :: nat in 48 \<le> n \<and> n \<le> 57)"

definition py_isdigit :: "char \<Rightarrow> bool" where
  "py_isdigit c = (let n = of_char c :: nat in ascii_digit c \<or> n = 178 \<or> n = 179 \<or> n = 185)"

definition digit_value :: "char \<Rightarrow> int" where
  "digit_value c = int (of_char c) - 48"

text \<open>\<^verbatim>\<open>line.split(sep)\<close> with a separator of one character.\<close>

fun split_on :: "char \<Rightarrow> string \<Rightarrow> string list" where
  "split_on sep [] = [[]]"
| "split_on sep (c # cs) =
     (if c = sep then [] # split_on sep cs
      else (case split_on sep cs of
              [] \<Rightarrow> [[c]]
            | w # ws \<Rightarrow> (c # w) # ws))"

text \<open>\<^verbatim>\<open>line.split()\<close>: the maximal runs of characters that are not white space; \<open>w\<close> is
  the run being read.\<close>

fun split_ws :: "string \<Rightarrow> string \<Rightarrow> string list" where
  "split_ws w [] = (if w = [] then [] else [w])"
| "split_ws w (c # cs) =
     (if py_isspace c then (if w = [] then split_ws [] cs else w # split_ws [] cs)
      else split_ws (w @ [c]) cs)"

definition py_split :: "string \<Rightarrow> string list" where
  "py_split line = split_ws [] line"

text \<open>\<^verbatim>\<open>sub in line\<close> and \<^verbatim>\<open>line.startswith(sub)\<close>.\<close>

fun py_contains :: "string \<Rightarrow> string \<Rightarrow> bool" where
  "py_contains sub [] = (sub = [])"
| "py_contains sub (c # cs) = (prefix sub (c # cs) \<or> py_contains sub cs)"

definition startswith :: "string \<Rightarrow> string \<Rightarrow> bool" where
  "startswith line sub = prefix sub line"

text \<open>\<^verbatim>\<open>re.findall('[0-9]+', s)\<close>: the maximal runs of ASCII digits; \<open>w\<close> is the run
  being read.\<close>

fun digit_runs :: "string \<Rightarrow> string \<Rightarrow> string list" where
  "digit_runs w [] = (if w = [] then [] else [w])"
| "digit_runs w (c # cs) =
     (if ascii_digit c then digit_runs (w @ [c]) cs
      else (if w = [] then digit_runs [] cs else w # digit_runs [] cs))"

definition findall_digits :: "string \<Rightarrow> string list" where
  "findall_digits s = digit_runs [] s"

text \<open>
  \<^verbatim>\<open>int(s)\<close> of a string: white space is stripped at both ends, then an optional sign
  and decimal digits, where single underscores may stand between digits; anything else
  raises ValueError (\<open>None\<close>).  \<open>prev\<close> says that the character before was a digit.
  (The limit of the interpreter on the number of digits is not modelled.)
\<close>

fun int_digits :: "bool \<Rightarrow> int \<Rightarrow> string \<Rightarrow> int option" where
  "int_digits prev acc [] = (if prev then Some acc else None)"
| "int_digits prev acc (c # cs) =
     (if ascii_digit c then int_digits True (10 * acc + digit_value c) cs
      else if c = CHR ''_'' \<and> prev then int_digits False acc cs
      else None)"

definition py_strip :: "string \<Rightarrow> string" where
  "py_strip s = rev (dropWhile py_isspace (rev (dropWhile py_isspace s)))"

definition py_int :: "string \<Rightarrow> int option" where
  "py_int s =
     (case py_strip s of
        [] \<Rightarrow> None
      | c # cs \<Rightarrow>
          if c = CHR ''-'' then map_option uminus (int_digits False 0 cs)
          else if c = CHR ''+'' then int_digits False 0 cs
          else int_digits False 0 (c # cs))"

text \<open>\<^verbatim>\<open>str(n)\<close> of an integer.\<close>

function str_nat :: "nat \<Rightarrow> string" where
  "str_nat n = (if n < 10 then [char_of (48 + n)] else str_nat (n div 10) @ [char_of (48 + n mod 10)])"
  by pat_completeness auto
termination
  by (relation "measure id") auto

declare str_nat.simps [simp del]

definition py_str :: "int \<Rightarrow> string" where
  "py_str i = (if i < 0 then CHR ''-'' # str_nat (nat (- i)) else str_nat (nat i))"

text \<open>\<^verbatim>\<open>xs[i]\<close> as a value.\<close>

definition py_get :: "'a list \<Rightarrow> int \<Rightarrow> error + 'a" where
  "py_get xs i = (case py_index xs i of Inl e \<Rightarrow> Inl e | Inr n \<Rightarrow> Inr (xs ! n))"

section \<open>Alignment parser: \<^verbatim>\<open>save_reads_mapped\<close>\<close>

text \<open>
  A mapping file is either a text file, read line by line (each line with its end of
  line), or a BAM file, read by \<^verbatim>\<open>pysam\<close> entry by entry; of an entry the code uses
  \<^verbatim>\<open>entry.to_string()\<close> and \<^verbatim>\<open>entry.get_tag("MD")\<close>, which raises KeyError when the tag
  is absent.  The file system maps a path to its content.
\<close>

record bam_entry =
  to_string :: string
  md_tag :: "string option"

datatype file_content = TextFile "string list" | BamFile "bam_entry list"

type_synonym file_system = "string \<rightharpoonup> file_content"

text \<open>
  \<open>contig_mag_corresp\<close> maps a contig name to \<open>[mag_name, mag_id, contig_id]\<close>, as
  \<^verbatim>\<open>add_sample\<close> builds it from \<open>lookup_table\<close>; the parser reads the entries \<open>[1]\<close> and
  \<open>[2]\<close>.  (\<^verbatim>\<open>sqldb_creation\<close> passes the dictionary of \<^verbatim>\<open>get_mags\<close>, from contig name
  to MAG name, for the same parameter; that call is not modelled.)
\<close>

type_synonym catalog = "string \<rightharpoonup> (string \<times> int \<times> int)"

record parse_state =
  record_counter :: int
  records :: "hit list"
  contigs_in_sample :: "string list"
  conn :: database

text \<open>
  \<^verbatim>\<open>
  if record_counter == 500000:
      cursor.execute("begin")
      cursor.executemany('INSERT INTO ' + sample_name + ' VALUES(?, ?, ?, ?, ?)', records)
      cursor.execute("commit")
      record_counter = 0
      records = []
  \<close>
\<close>

definition flush_full :: "string \<Rightarrow> parse_state \<Rightarrow> error + parse_state" where
  "flush_full sample_name st =
     (if record_counter st = 500000
      then (case insert_hits sample_name (records st) (conn st) of
              Inl e \<Rightarrow> Inl e
            | Inr db \<Rightarrow> Inr (st\<lparr>record_counter := 0, records := [], conn := db\<rparr>))
      else Inr st)"

text \<open>\<^verbatim>\<open>if contig_ref not in contigs_in_sample: contigs_in_sample.append(contig_ref)\<close>\<close>

definition note_contig :: "string \<Rightarrow> parse_state \<Rightarrow> parse_state" where
  "note_contig contig_ref st =
     (if contig_ref \<in> set (contigs_in_sample st) then st
      else st\<lparr>contigs_in_sample := contigs_in_sample st @ [contig_ref]\<rparr>)"

text \<open>\<^verbatim>\<open>records.append(hit); record_counter += 1\<close>\<close>

definition append_record :: "hit \<Rightarrow> parse_state \<Rightarrow> parse_state" where
  "append_record h st = st\<lparr>records := records st @ [h], record_counter := record_counter st + 1\<rparr>"

subsection \<open>Tabular BLAST\<close>

text \<open>
  The body of the loop over the lines; \<^verbatim>\<open>float\<close> of a string is a parameter, \<open>None\<close>
  being its ValueError.
  \<^verbatim>\<open>
  if line.startswith("#"):
      pass
  else:
      segment = line.split("\t")
      contig_ref = segment[1]
      if contig_ref not in contig_mag_corresp:
          continue
      else:
          if contig_ref not in contigs_in_sample:
              contigs_in_sample.append(contig_ref)
          pct_id = float(segment[2])
          pos1 = int(segment[8])
          pos2 = int(segment[9])
          start = min(pos1, pos2)
          end = start+(max(pos1, pos2)-min(pos1, pos2))
          mag_id = contig_mag_corresp[contig_ref][1]
          contig_id = contig_mag_corresp[contig_ref][2]
          records.append((mag_id, contig_id, pct_id, start, end))
          record_counter += 1
  \<close>
\<close>

definition blast_line :: "(string \<Rightarrow> rat option) \<Rightarrow> catalog \<Rightarrow> string \<Rightarrow> parse_state
    \<Rightarrow> error + parse_state" where
  "blast_line py_float contig_mag_corresp line st =
     (if startswith line ''#'' then Inr st
      else
        let segment = split_on (CHR 0x09) line
        in case py_get segment 1 of
             Inl e \<Rightarrow> Inl e
           | Inr contig_ref \<Rightarrow>
               (case contig_mag_corresp contig_ref of
                  None \<Rightarrow> Inr st
                | Some (mag_name, mag_id, contig_id) \<Rightarrow>
                    let st = note_contig contig_ref st
                    in case py_get segment 2 of
                         Inl e \<Rightarrow> Inl e
                       | Inr f2 \<Rightarrow>
                    (case py_float f2 of
                       None \<Rightarrow> Inl ValueError
                     | Some pct_id \<Rightarrow>
                    (case py_get segment 8 of
                       Inl e \<Rightarrow> Inl e
                     | Inr f8 \<Rightarrow>
                    (case py_int f8 of
                       None \<Rightarrow> Inl ValueError
                     | Some pos1 \<Rightarrow>
                    (case py_get segment 9 of
                       Inl e \<Rightarrow> Inl e
                     | Inr f9 \<Rightarrow>
                    (case py_int f9 of
                       None \<Rightarrow> Inl ValueError
                     | Some pos2 \<Rightarrow>
                         let start = min pos1 pos2;
                             end = start + (max pos1 pos2 - min pos1 pos2)
                         in Inr (append_record (mag_id, contig_id, pct_id, start, end) st))))))))"

definition blast_step :: "(string \<Rightarrow> rat option) \<Rightarrow> catalog \<Rightarrow> string \<Rightarrow> string \<Rightarrow> parse_state
    \<Rightarrow> error + parse_state" where
  "blast_step py_float contig_mag_corresp sample_name line st =
     (case flush_full sample_name st of
        Inl e \<Rightarrow> Inl e
      | Inr st' \<Rightarrow> blast_line py_float contig_mag_corresp line st')"

subsection \<open>SAM and BAM\<close>

text \<open>
  \<^verbatim>\<open>
  iter = len(segment)-1
  mdz_seg = segment[iter]
  while not mdz_seg.startswith("MD:Z:"):
      iter -= 1
      mdz_seg = segment[iter]
  \<close>
  Below zero \<open>iter\<close> reads the fields once more from the end, and the subscript raises
  IndexError below \<open>-len(segment)\<close>.
\<close>

function find_mdz :: "string list \<Rightarrow> int \<Rightarrow> error + string" where
  "find_mdz segment iter =
     (if - int (length segment) \<le> iter \<and> iter < int (length segment)
      then let mdz_seg = segment ! nat (if iter < 0 then int (length segment) + iter else iter)
           in if startswith mdz_seg ''MD:Z:'' then Inr mdz_seg else find_mdz segment (iter - 1)
      else Inl IndexError)"
  by pat_completeness auto
termination
  by (relation "measure (\<lambda>(segment, iter). nat (iter + int (length segment) + 1))") auto

declare find_mdz.simps [simp del]

text \<open>\<^verbatim>\<open>sum = 0; for num in match_count: sum += int(num)\<close> (the variable \<open>sum\<close> is \<open>msum\<close> here)\<close>

fun sum_ints :: "string list \<Rightarrow> int \<Rightarrow> error + int" where
  "sum_ints [] msum = Inr msum"
| "sum_ints (num # rest) msum =
     (case py_int num of None \<Rightarrow> Inl ValueError | Some n \<Rightarrow> sum_ints rest (msum + n))"

text \<open>
  The computation of the hit from the value of the edit-distance tag, the same text in the
  SAM and in the BAM branch:
  \<^verbatim>\<open>
  match_count = re.findall('[0-9]+', mdz_seg)
  sum=0
  for num in match_count:
      sum+=int(num)
  total_count = len(''.join([i for i in mdz_seg if not i.isdigit()])) + sum
  pct_id = (sum/(total_count))*100
  start = int(segment[3])
  end = start+total_count-1
  mag_id = contig_mag_corresp[contig_ref][1]
  contig_id = contig_mag_corresp[contig_ref][2]
  records.append((mag_id, contig_id, pct_id, start, end))
  \<close>
\<close>

definition md_hit :: "string \<times> int \<times> int \<Rightarrow> string \<Rightarrow> string list \<Rightarrow> error + hit" where
  "md_hit info mdz_seg segment =
     (case sum_ints (findall_digits mdz_seg) 0 of
        Inl e \<Rightarrow> Inl e
      | Inr msum \<Rightarrow>
          let total_count = int (length (filter (\<lambda>i. \<not> py_isdigit i) mdz_seg)) + msum
          in if total_count = 0 then Inl ZeroDivisionError
             else
               let pct_id = (of_int msum / of_int total_count) * 100
               in case py_get segment 3 of
                    Inl e \<Rightarrow> Inl e
                  | Inr f3 \<Rightarrow>
                      (case py_int f3 of
                         None \<Rightarrow> Inl ValueError
                       | Some start \<Rightarrow>
                           let end = start + total_count - 1
                           in case info of (mag_name, mag_id, contig_id) \<Rightarrow>
                                Inr (mag_id, contig_id, pct_id, start, end)))"

definition sam_line :: "catalog \<Rightarrow> string \<Rightarrow> parse_state \<Rightarrow> error + parse_state" where
  "sam_line contig_mag_corresp line st =
     (if \<not> py_contains ''MD:Z:'' line then Inr st
      else
        let segment = py_split line
        in case py_get segment 2 of
             Inl e \<Rightarrow> Inl e
           | Inr contig_ref \<Rightarrow>
               (case contig_mag_corresp contig_ref of
                  None \<Rightarrow> Inr st
                | Some info \<Rightarrow>
                    let st = note_contig contig_ref st
                    in case find_mdz segment (int (length segment) - 1) of
                         Inl e \<Rightarrow> Inl e
                       | Inr mdz_seg \<Rightarrow>
                           (case md_hit info (drop 5 mdz_seg) segment of
                              Inl e \<Rightarrow> Inl e
                            | Inr h \<Rightarrow> Inr (append_record h st))))"

definition sam_step :: "catalog \<Rightarrow> string \<Rightarrow> string \<Rightarrow> parse_state \<Rightarrow> error + parse_state" where
  "sam_step contig_mag_corresp sample_name line st =
     (case flush_full sample_name st of
        Inl e \<Rightarrow> Inl e
      | Inr st' \<Rightarrow> sam_line contig_mag_corresp line st')"

definition bam_entry_line :: "catalog \<Rightarrow> bam_entry \<Rightarrow> parse_state \<Rightarrow> error + parse_state" where
  "bam_entry_line contig_mag_corresp entry st =
     (let line = to_string entry
      in if \<not> py_contains ''MD:Z:'' line then Inr st
         else
           let segment = py_split line
           in case py_get segment 2 of
                Inl e \<Rightarrow> Inl e
              | Inr contig_ref \<Rightarrow>
                  (case contig_mag_corresp contig_ref of
                     None \<Rightarrow> Inr st
                   | Some info \<Rightarrow>
                       let st = note_contig contig_ref st
                       in case md_tag entry of
                            None \<Rightarrow> Inl KeyError
                          | Some mdz_seg \<Rightarrow>
                              (case md_hit info mdz_seg segment of
                                 Inl e \<Rightarrow> Inl e
                               | Inr h \<Rightarrow> Inr (append_record h st))))"

definition bam_step :: "catalog \<Rightarrow> string \<Rightarrow> bam_entry \<Rightarrow> parse_state \<Rightarrow> error + parse_state" where
  "bam_step contig_mag_corresp sample_name entry st =
     (case flush_full sample_name st of
        Inl e \<Rightarrow> Inl e
      | Inr st' \<Rightarrow> bam_entry_line contig_mag_corresp entry st')"

subsection \<open>The loops and the whole function\<close>

text \<open>A \<^verbatim>\<open>for\<close> loop over the lines or entries stops at the first exception.\<close>

fun parse_loop :: "('a \<Rightarrow> parse_state \<Rightarrow> error + parse_state) \<Rightarrow> 'a list \<Rightarrow> parse_state
    \<Rightarrow> error + parse_state" where
  "parse_loop step [] st = Inr st"
| "parse_loop step (line # rest) st =
     (case step line st of Inl e \<Rightarrow> Inl e | Inr st' \<Rightarrow> parse_loop step rest st')"

text \<open>
  \<^verbatim>\<open>
  if record_counter > 0:
      cursor.execute("begin")
      cursor.executemany('INSERT INTO ' + sample_name + ' VALUES(?, ?, ?, ?, ?)', records)
      cursor.execute("commit")
  cursor.execute('CREATE INDEX ' + sample_name + '_index on ' + sample_name + ' (mag_id)')
  \<close>
\<close>

definition finish_parse :: "string \<Rightarrow> parse_state \<Rightarrow> error + (string list \<times> database)" where
  "finish_parse sample_name st =
     (case (if record_counter st > 0 then insert_hits sample_name (records st) (conn st)
            else Inr (conn st)) of
        Inl e \<Rightarrow> Inl e
      | Inr db \<Rightarrow>
          (case create_index sample_name db of
             Inl e \<Rightarrow> Inl e
           | Inr db' \<Rightarrow> Inr (contigs_in_sample st, db')))"

definition run_parse :: "('a \<Rightarrow> parse_state \<Rightarrow> error + parse_state) \<Rightarrow> string \<Rightarrow> 'a list
    \<Rightarrow> database \<Rightarrow> error + (string list \<times> database)" where
  "run_parse step sample_name input_reads db =
     (case parse_loop step input_reads
             \<lparr>record_counter = 0, records = [], contigs_in_sample = [], conn = db\<rparr> of
        Inl e \<Rightarrow> Inl e
      | Inr st \<Rightarrow> finish_parse sample_name st)"

text \<open>
  \<^verbatim>\<open>save_reads_mapped(mapping_file, sample_name, map_format, contig_mag_corresp, cursor, conn)\<close>
  returns \<open>contigs_in_sample\<close>; the database it writes to is returned with it.  Opening a
  BAM file as text, or a text file as BAM, is taken to raise ValueError.
\<close>

definition save_reads_mapped :: "(string \<Rightarrow> rat option) \<Rightarrow> file_system \<Rightarrow> string \<Rightarrow> string
    \<Rightarrow> string \<Rightarrow> catalog \<Rightarrow> database \<Rightarrow> error + (string list \<times> database)" where
  "save_reads_mapped py_float fs mapping_file sample_name map_format contig_mag_corresp db =
     (if \<not> (map_format = ''sam'' \<or> map_format = ''bam'' \<or> map_format = ''blast'')
      then Inl AssertionError
      else if map_format = ''blast'' then
        (case fs mapping_file of
           None \<Rightarrow> Inl FileNotFoundError
         | Some (BamFile entries) \<Rightarrow> Inl ValueError
         | Some (TextFile input_reads) \<Rightarrow>
             run_parse (blast_step py_float contig_mag_corresp sample_name) sample_name input_reads db)
      else if map_format = ''sam'' then
        (case fs mapping_file of
           None \<Rightarrow> Inl FileNotFoundError
         | Some (BamFile entries) \<Rightarrow> Inl ValueError
         | Some (TextFile input_reads) \<Rightarrow>
             run_parse (sam_step contig_mag_corresp sample_name) sample_name input_reads db)
      else
        (case fs mapping_file of
           None \<Rightarrow> Inl FileNotFoundError
         | Some (TextFile input_reads) \<Rightarrow> Inl ValueError
         | Some (BamFile entries) \<Rightarrow>
             run_parse (bam_step contig_mag_corresp sample_name) sample_name entries db))"

section \<open>Catalog construction: \<^verbatim>\<open>sqldb_creation\<close>\<close>

text \<open>
  A Python dictionary whose order of iteration matters is the list of its items in the
  order of insertion.  \<open>contig_sizes\<close> is what \<^verbatim>\<open>read_contigs\<close> returns (contig name to
  length) and \<open>contig_mag_corresp\<close> what \<^verbatim>\<open>get_mags\<close> returns (contig name to MAG name).
\<close>

text \<open>
  \<^verbatim>\<open>
  sample_number = 1
  for sample_name in sample_reads:
      sample_id = "sample_" + str(sample_number)
      samples_to_db.append((sample_name, sample_id, sample_number))
      sample_number += 1
  \<close>
\<close>

fun number_samples :: "string list \<Rightarrow> int \<Rightarrow> (string \<times> string \<times> int) list" where
  "number_samples [] sample_number = []"
| "number_samples (sample_name # rest) sample_number =
     (sample_name, ''sample_'' @ py_str sample_number, sample_number)
       # number_samples rest (sample_number + 1)"

text \<open>
  \<^verbatim>\<open>
  for contig_name, mag_name in contig_mag_corresp.items():
      if mag_name in mag_ids:
          contig_identifiers.append((mag_name, mag_ids[mag_name], contig_name, contig_id))
          contig_id += 1
      else:
          mag_id += 1
          mag_ids[mag_name] = mag_id
          contig_identifiers.append((mag_name, mag_ids[mag_name], contig_name, contig_id))
          contig_id += 1
  \<close>
  (The dictionary \<open>contig_information\<close> that the loop also fills is never read.)
\<close>

fun identify_contigs :: "(string \<times> string) list \<Rightarrow> (string \<rightharpoonup> int) \<Rightarrow> int \<Rightarrow> int
    \<Rightarrow> (string \<times> int \<times> string \<times> int) list \<Rightarrow> (string \<times> int \<times> string \<times> int) list" where
  "identify_contigs [] mag_ids mag_id contig_id contig_identifiers = contig_identifiers"
| "identify_contigs ((contig_name, mag_name) # rest) mag_ids mag_id contig_id contig_identifiers =
     (case mag_ids mag_name of
        Some m \<Rightarrow>
          identify_contigs rest mag_ids mag_id (contig_id + 1)
            (contig_identifiers @ [(mag_name, m, contig_name, contig_id)])
      | None \<Rightarrow>
          identify_contigs rest (mag_ids(mag_name \<mapsto> mag_id + 1)) (mag_id + 1) (contig_id + 1)
            (contig_identifiers @ [(mag_name, mag_id + 1, contig_name, contig_id)]))"

text \<open>
  \<^verbatim>\<open>
  for contig, contig_len in contig_sizes.items():
      sql_command = 'SELECT mag_id, contig_id from lookup_table WHERE contig_name = ?'
      cursor.execute(sql_command, (contig,))
      mag_contig_id = cursor.fetchone()
      contig_lengths.append((mag_contig_id[0], mag_contig_id[1], contig_len))
  \<close>
  \<^verbatim>\<open>fetchone()\<close> is \<open>None\<close> when no row matches, and the subscript of \<open>None\<close> raises
  TypeError.
\<close>

definition select_contig :: "(string \<times> int \<times> string \<times> int) list \<Rightarrow> string \<Rightarrow> (int \<times> int) option" where
  "select_contig table contig =
     (case find (\<lambda>(mag_name, mag_id, contig_name, contig_id). contig_name = contig) table of
        None \<Rightarrow> None
      | Some (mag_name, mag_id, contig_name, contig_id) \<Rightarrow> Some (mag_id, contig_id))"

fun join_lengths :: "(string \<times> int \<times> string \<times> int) list \<Rightarrow> (string \<times> int) list
    \<Rightarrow> (int \<times> int \<times> int) list \<Rightarrow> error + (int \<times> int \<times> int) list" where
  "join_lengths table [] contig_lengths = Inr contig_lengths"
| "join_lengths table ((contig, contig_len) # rest) contig_lengths =
     (case select_contig table contig of
        None \<Rightarrow> Inl TypeError
      | Some (mag_id, contig_id) \<Rightarrow>
          join_lengths table rest (contig_lengths @ [(mag_id, contig_id, contig_len)]))"

text \<open>
  \<^verbatim>\<open>sqldb_creation\<close> up to the commit of the contig lengths (lines 24 to 111): the four
  tables are dropped and created again, the samples are numbered (the unique index on
  the sample names fails when a name comes twice), the contigs and MAGs are numbered, and
  the lengths are joined; \<open>mag_info\<close> is written by one \<^verbatim>\<open>executemany\<close> after the loop
  of the join.  The tables of the samples are left as they are; the ingestion of the
  mapping files, which follows, is not part of this definition.
\<close>

definition sqldb_creation_catalog :: "(string \<times> int) list \<Rightarrow> (string \<times> string) list \<Rightarrow> string list
    \<Rightarrow> database \<Rightarrow> error + database" where
  "sqldb_creation_catalog contig_sizes contig_mag_corresp sample_reads db =
     (let samples_to_db = number_samples sample_reads 1
      in if \<not> distinct sample_reads then Inl IntegrityError
         else
           let contig_identifiers = identify_contigs contig_mag_corresp Map.empty 0 1 []
           in case join_lengths contig_identifiers contig_sizes [] of
                Inl e \<Rightarrow> Inl e
              | Inr contig_lengths \<Rightarrow>
                  Inr (db\<lparr>lookup_table := contig_identifiers, mag_info := contig_lengths,
                          sample_info := samples_to_db, mags_per_sample := []\<rparr>))"

section \<open>Adding and rebuilding samples: \<^verbatim>\<open>add_sample\<close>\<close>

text \<open>
  \<^verbatim>\<open>
  for sample in sample_information:
      samples_dict[sample[0]] = sample[1]
      if sample[2] > last_sample:
          last_sample = sample[2]
  \<close>
\<close>

fun read_sample_info :: "(string \<times> string \<times> int) list \<Rightarrow> (string \<rightharpoonup> string) \<Rightarrow> int
    \<Rightarrow> (string \<rightharpoonup> string) \<times> int" where
  "read_sample_info [] samples_dict last_sample = (samples_dict, last_sample)"
| "read_sample_info ((sample_name, sample_id, sample_number) # rest) samples_dict last_sample =
     read_sample_info rest (samples_dict(sample_name \<mapsto> sample_id))
       (if sample_number > last_sample then sample_number else last_sample)"

text \<open>
  \<^verbatim>\<open>
  for contig_mag in contig_correspondence:
      contig_mag_corresp[contig_mag[2]] = [contig_mag[0], contig_mag[1], contig_mag[3]]
  \<close>
\<close>

fun read_lookup_table :: "(string \<times> int \<times> string \<times> int) list \<Rightarrow> catalog \<Rightarrow> catalog" where
  "read_lookup_table [] contig_mag_corresp = contig_mag_corresp"
| "read_lookup_table ((mag_name, mag_id, contig_name, contig_id) # rest) contig_mag_corresp =
     read_lookup_table rest (contig_mag_corresp(contig_name \<mapsto> (mag_name, mag_id, contig_id)))"

text \<open>
  \<^verbatim>\<open>
  for element in all_contigs:        # rows (contig_name, mag_name, mag_id) of lookup_table
      if element[0] in contigs_in_sample:
          if element[1] not in mags_in_sample:
              mags_in_sample.append(element[1])
  \<close>
  (\<open>contigs\<close> is the list \<open>contigs_in_sample\<close> that the parser returned.)
\<close>

fun collect_mags :: "(string \<times> int \<times> string \<times> int) list \<Rightarrow> string list \<Rightarrow> string list \<Rightarrow> string list" where
  "collect_mags [] contigs mags_in_sample = mags_in_sample"
| "collect_mags ((mag_name, mag_id, contig_name, contig_id) # rest) contigs mags_in_sample =
     (if contig_name \<in> set contigs
      then (if mag_name \<notin> set mags_in_sample
            then collect_mags rest contigs (mags_in_sample @ [mag_name])
            else collect_mags rest contigs mags_in_sample)
      else collect_mags rest contigs mags_in_sample)"

text \<open>\<^verbatim>\<open>INSERT INTO mags_per_sample\<close> of the pairs \<open>(new_sample, x)\<close>.\<close>

definition insert_mags :: "string \<Rightarrow> string list \<Rightarrow> database \<Rightarrow> database" where
  "insert_mags new_sample mags_in_sample db =
     db\<lparr>mags_per_sample := mags_per_sample db @ map (\<lambda>x. (new_sample, x)) mags_in_sample\<rparr>"

text \<open>\<^verbatim>\<open>DELETE FROM mags_per_sample WHERE sample_name = ?\<close>\<close>

definition delete_mags :: "string \<Rightarrow> database \<Rightarrow> database" where
  "delete_mags new_sample db =
     db\<lparr>mags_per_sample := filter (\<lambda>(sample_name, mag_name). sample_name \<noteq> new_sample) (mags_per_sample db)\<rparr>"

text \<open>\<^verbatim>\<open>INSERT INTO sample_info VALUES(?, ?, ?)\<close> under the unique index on the name.\<close>

definition insert_sample :: "string \<times> string \<times> int \<Rightarrow> database \<Rightarrow> error + database" where
  "insert_sample new_record db =
     (if fst new_record \<in> fst ` set (sample_info db) then Inl IntegrityError
      else Inr (db\<lparr>sample_info := sample_info db @ [new_record]\<rparr>))"

text \<open>
  The body of the loop over \<open>new_mapping_files\<close>; its state is the database and
  \<open>last_sample\<close>.  The first branch rebuilds a sample that exists, the second one adds a
  new sample.
\<close>

definition add_sample_step :: "(string \<Rightarrow> rat option) \<Rightarrow> file_system \<Rightarrow> string \<Rightarrow> (string \<rightharpoonup> string)
    \<Rightarrow> catalog \<Rightarrow> string \<Rightarrow> database \<times> int \<Rightarrow> error + (database \<times> int)" where
  "add_sample_step py_float fs map_format samples_dict contig_mag_corresp new_sample s =
     (case s of (db, last_sample) \<Rightarrow>
        (case samples_dict new_sample of
           Some sample_name \<Rightarrow>
             (case create_table sample_name (drop_table sample_name db) of
                Inl e \<Rightarrow> Inl e
              | Inr db1 \<Rightarrow>
                  (case save_reads_mapped py_float fs new_sample sample_name map_format
                          contig_mag_corresp (delete_mags new_sample db1) of
                     Inl e \<Rightarrow> Inl e
                   | Inr (contigs, db2) \<Rightarrow>
                       Inr (insert_mags new_sample
                              (collect_mags (lookup_table db2) contigs []) db2,
                            last_sample)))
         | None \<Rightarrow>
             let sample_name = ''sample_'' @ py_str (last_sample + 1);
                 last_sample = last_sample + 1
             in (case create_table sample_name db of
                   Inl e \<Rightarrow> Inl e
                 | Inr db1 \<Rightarrow>
                     (case save_reads_mapped py_float fs new_sample sample_name map_format
                             contig_mag_corresp db1 of
                        Inl e \<Rightarrow> Inl e
                      | Inr (contigs, db2) \<Rightarrow>
                          (case insert_sample (new_sample, sample_name, last_sample)
                                  (insert_mags new_sample
                                     (collect_mags (lookup_table db2) contigs []) db2) of
                             Inl e \<Rightarrow> Inl e
                           | Inr db3 \<Rightarrow> Inr (db3, last_sample))))))"

fun add_sample_loop :: "(string \<Rightarrow> rat option) \<Rightarrow> file_system \<Rightarrow> string \<Rightarrow> (string \<rightharpoonup> string)
    \<Rightarrow> catalog \<Rightarrow> string list \<Rightarrow> database \<times> int \<Rightarrow> error + (database \<times> int)" where
  "add_sample_loop py_float fs map_format samples_dict contig_mag_corresp [] s = Inr s"
| "add_sample_loop py_float fs map_format samples_dict contig_mag_corresp (new_sample # rest) s =
     (case add_sample_step py_float fs map_format samples_dict contig_mag_corresp new_sample s of
        Inl e \<Rightarrow> Inl e
      | Inr s' \<Rightarrow> add_sample_loop py_float fs map_format samples_dict contig_mag_corresp rest s')"

definition add_sample :: "(string \<Rightarrow> rat option) \<Rightarrow> file_system \<Rightarrow> database \<Rightarrow> string list \<Rightarrow> string
    \<Rightarrow> error + database" where
  "add_sample py_float fs database new_mapping_files map_format =
     (case read_sample_info (sample_info database) Map.empty 0 of
        (samples_dict, last_sample) \<Rightarrow>
          let contig_mag_corresp = read_lookup_table (lookup_table database) Map.empty
          in case add_sample_loop py_float fs map_format samples_dict contig_mag_corresp
                    new_mapping_files (database, last_sample) of
               Inl e \<Rightarrow> Inl e
             | Inr (db, n) \<Rightarrow> Inr db)"

section \<open>The builder and the filler on the database\<close>

text \<open>
  \<^verbatim>\<open>
  for id_len in contig_sizes:        # rows (contig_id, contig_len) of mag_info
      ...starts, ends as above...
      numpy_arr = np.zeros((len(id_breaks), len(starts)), dtype = np.uint32)
      matrix[id_len[0]] = [starts, ends, numpy_arr]
  \<close>
\<close>

fun build_matrices :: "nat \<Rightarrow> int \<Rightarrow> (int \<times> int \<times> int) list \<Rightarrow> matrices \<Rightarrow> error + matrices" where
  "build_matrices n_breaks width [] matrix = Inr matrix"
| "build_matrices n_breaks width ((mag_id, contig_id, contig_length) # rest) matrix =
     (case position_bins contig_length width of
        Inl e \<Rightarrow> Inl e
      | Inr (starts, ends) \<Rightarrow>
          build_matrices n_breaks width rest
            (matrix(contig_id \<mapsto> (starts, ends, replicate n_breaks (replicate (length starts) 0)))))"

text \<open>
  \<^verbatim>\<open>prepare_numpy_matrices(database, mag_name, width, bin_height, id_lower)\<close>; \<open>None\<close> is
  "the loop of the identity breaks does not end".
\<close>

definition prepare_numpy_matrices :: "database \<Rightarrow> string \<Rightarrow> int \<Rightarrow> rat \<Rightarrow> rat
    \<Rightarrow> (error + (int \<times> matrices \<times> rat list)) option" where
  "prepare_numpy_matrices db mag_name width bin_height id_lower =
     (case identity_breaks bin_height id_lower of
        None \<Rightarrow> None
      | Some id_breaks \<Rightarrow>
          Some (case find (\<lambda>(mn, mi, cn, ci). mn = mag_name) (lookup_table db) of
                  None \<Rightarrow> Inl TypeError
                | Some (mn, mag_id, cn, ci) \<Rightarrow>
                    (case build_matrices (length id_breaks) width
                            (filter (\<lambda>(mi, ci, len). mi = mag_id) (mag_info db)) Map.empty of
                       Inl e \<Rightarrow> Inl e
                     | Inr matrix \<Rightarrow> Inr (mag_id, matrix, id_breaks))))"

text \<open>\<^verbatim>\<open>fill_matrices(database, mag_id, sample_name, matrices, id_breaks)\<close>\<close>

definition fill_matrices :: "database \<Rightarrow> int \<Rightarrow> string \<Rightarrow> matrices \<Rightarrow> rat list \<Rightarrow> error + matrices" where
  "fill_matrices db mag_id sample_name matrices id_breaks =
     (case find (\<lambda>(sn, sid, num). sn = sample_name) (sample_info db) of
        None \<Rightarrow> Inl TypeError
      | Some (sn, sample_id, num) \<Rightarrow>
          (case sample_tables db sample_id of
             None \<Rightarrow> Inl OperationalError
           | Some (rows, indexed) \<Rightarrow>
               fill_reads id_breaks matrices
                 (filter (\<lambda>(mi, ci, identity, start, stop). mi = mag_id) rows)))"

section \<open>Auxiliary notions of the proofs\<close>





text \<open>
  \<open>only_table s db db'\<close>: the database \<open>db'\<close> differs from \<open>db\<close> in the table \<open>s\<close> of hits
  at most.
\<close>

definition only_table :: "string \<Rightarrow> database \<Rightarrow> database \<Rightarrow> bool" where
  "only_table s db db' \<longleftrightarrow>
     db' = db\<lparr>sample_tables := (sample_tables db)(s := sample_tables db' s)\<rparr>"


section \<open>The notions of the claims on the parser\<close>




text \<open>
  What the specification says of the edit-distance tag: \<open>md_matches\<close> is the sum of the
  runs of digits of its value, read as decimal numbers, and \<open>md_mismatches\<close> the number of
  its characters that are not digits (for \<^verbatim>\<open>str.isdigit\<close>).  The tag of a record is the last
  field that starts with \<^verbatim>\<open>MD:Z:\<close>, without this prefix.  A record without the tag and a
  record of a contig that is not in the catalog give no hit; \<open>sam_accepts\<close> says that a
  record of the catalog has the fields that are read, a position that is a number and a
  tag of positive length.
\<close>

definition decimal :: "string \<Rightarrow> int" where
  "decimal num = foldl (\<lambda>acc c. 10 * acc + digit_value c) 0 num"

definition md_matches :: "string \<Rightarrow> int" where
  "md_matches tag = sum_list (map decimal (findall_digits tag))"

definition md_mismatches :: "string \<Rightarrow> int" where
  "md_mismatches tag = int (length (filter (\<lambda>c. \<not> py_isdigit c) tag))"

definition md_tag_value :: "string list \<Rightarrow> string" where
  "md_tag_value segment = drop 5 (last (filter (\<lambda>f. startswith f ''MD:Z:'') segment))"




text \<open>A line of a tab-separated file, for the examples.\<close>

definition tab_line :: "string list \<Rightarrow> string" where
  "tab_line cols = foldr (\<lambda>f rest. if rest = [] then f else f @ CHR 0x09 # rest) cols [] @ [CHR 0x0A]"


section \<open>Properties of the matrix builder\<close>

subsection \<open>Identity breaks\<close>



subsection \<open>Position bins\<close>

lemma py_trunc_mono: "a \<le> b \<Longrightarrow> py_trunc a \<le> py_trunc b"
proof -
  assume ab: "a \<le> b"
  show ?thesis
  proof (cases "0 \<le> a")
    case True
    with ab show ?thesis by (simp add: py_trunc_def floor_mono)
  next
    case False
    show ?thesis
    proof (cases "0 \<le> b")
      case True
      have "\<lceil>a\<rceil> \<le> 0" using False by (simp add: ceiling_le_zero)
      moreover have "0 \<le> \<lfloor>b\<rfloor>" using True by simp
      moreover have "py_trunc a = \<lceil>a\<rceil>" "py_trunc b = \<lfloor>b\<rfloor>"
        using False True by (simp_all add: py_trunc_def)
      ultimately show ?thesis by linarith
    next
      case False
      with ab \<open>\<not> 0 \<le> a\<close> show ?thesis by (simp add: py_trunc_def ceiling_mono)
    qed
  qed
qed

lemma py_trunc_div_pos:
  assumes "0 < L" "0 < W"
  shows "py_trunc (of_int L / of_int W) = L div W"
  using assms by (simp add: py_trunc_def floor_divide_of_int_eq)

lemma length_linspace: "length (linspace a b n) = n"
  by (simp add: linspace_def Let_def)

lemma linspace_first: "0 < n \<Longrightarrow> linspace a b n ! 0 = a"
  by (simp add: linspace_def Let_def py_trunc_def)

lemma sorted_linspace:
  assumes "a \<le> b"
  shows "sorted (linspace a b n)"
proof -
  have step: "0 \<le> (rat_of_int b - rat_of_int a) / rat_of_nat n"
    using assms by simp
  show ?thesis
    unfolding linspace_def Let_def sorted_iff_nth_mono
    using step by (auto intro!: py_trunc_mono mult_right_mono simp del: times_divide_eq_right)
qed

lemma widths_telescope:
  "sum_list (map2 (\<lambda>s e. e - s + 1) (s # ss) (map (\<lambda>s. s - 1) ss @ [L])) = L - s + (1::int)"
  by (induction ss arbitrary: s) auto

lemma sum_nth_map2:
  assumes "length xs = length ys"
  shows "(\<Sum>i<length xs. f (xs ! i) (ys ! i)) = sum_list (map2 f xs ys)"
proof -
  have "sum_list (map2 f xs ys) = (\<Sum>i = 0..<length (map2 f xs ys). map2 f xs ys ! i)"
    by (rule sum_list_sum_nth)
  also have "\<dots> = (\<Sum>i<length xs. f (xs ! i) (ys ! i))"
    using assms by (intro sum.cong) (auto simp: lessThan_atLeast0)
  finally show ?thesis by simp
qed


subsection \<open>The claims on the builder\<close>



text \<open>
  Claim C7.  For a contig of length \<open>L > 0\<close> and a bin width \<open>W > 0\<close> the builder makes
  \<open>max 1 (L div W)\<close> position bins; the first bin starts at 1, the last one ends at \<open>L\<close>,
  each bin ends one before the next one starts, the bin starts are in ascending order, the
  widths \<open>end - start + 1\<close> add up to \<open>L\<close>, and a contig shorter than the width has the one
  bin from 1 to \<open>L\<close>.
\<close>

theorem position_bins_partition:
  assumes "0 < L" "0 < W"
  shows "\<exists>starts ends. position_bins L W = Inr (starts, ends)
     \<and> length starts = nat (max 1 (L div W)) \<and> length ends = length starts
     \<and> starts ! 0 = 1 \<and> last ends = L
     \<and> (\<forall>i. Suc i < length starts \<longrightarrow> ends ! i + 1 = starts ! Suc i)
     \<and> (\<Sum>i<length starts. ends ! i - starts ! i + 1) = L
     \<and> sorted starts
     \<and> (L < W \<longrightarrow> starts = [1] \<and> ends = [L])"
proof -
  define n where "n = nat (max 1 (L div W))"
  define starts where "starts = linspace 1 L n"
  define ends where "ends = map (\<lambda>s. s - 1) (drop 1 starts) @ [L]"
  have n_pos: "0 < n" by (simp add: n_def)
  have n_eq: "nat (if py_trunc (of_int L / of_int W) < 1 then 1 else py_trunc (of_int L / of_int W)) = n"
    using assms by (simp add: py_trunc_div_pos n_def max_def)
  have pb: "position_bins L W = Inr (starts, ends)"
    using assms n_eq by (simp add: position_bins_def Let_def starts_def ends_def)
  have len: "length starts = n" by (simp add: starts_def length_linspace)
  then obtain s ss where sss: "starts = s # ss" using n_pos by (cases starts) auto
  have s1: "s = 1" using linspace_first [OF n_pos, of 1 L] sss by (simp add: starts_def)
  have ends': "ends = map (\<lambda>s. s - 1) ss @ [L]" by (simp add: ends_def sss)
  have lene: "length ends = length starts" by (simp add: ends' sss)
  have contiguous: "\<forall>i. Suc i < length starts \<longrightarrow> ends ! i + 1 = starts ! Suc i"
    by (simp add: ends' sss nth_append)
  have "(\<Sum>i<length starts. ends ! i - starts ! i + 1) = sum_list (map2 (\<lambda>s e. e - s + 1) starts ends)"
    using sum_nth_map2 [OF lene [symmetric], of "\<lambda>s e. e - s + 1"] by simp
  also have "\<dots> = L" unfolding sss ends' widths_telescope by (simp add: s1)
  finally have total: "(\<Sum>i<length starts. ends ! i - starts ! i + 1) = L" .
  have srt: "sorted starts" unfolding starts_def using assms by (intro sorted_linspace) simp
  have short: "L < W \<longrightarrow> starts = [1] \<and> ends = [L]"
  proof
    assume "L < W"
    with assms have "n = 1" by (simp add: n_def)
    with len sss s1 have "starts = [1]" by simp
    then show "starts = [1] \<and> ends = [L]" by (simp add: ends_def)
  qed
  show ?thesis
    using pb len lene contiguous total srt short sss s1 by (simp add: n_def ends')
qed

theorem position_bins_partition_witness:
  "(0::int) < 2350 \<and> (0::int) < 1000 \<and> position_bins 2350 1000 = Inr ([1, 1175], [1174, 2350])
   \<and> (0::int) < 500 \<and> (500::int) < 1000 \<and> position_bins 500 1000 = Inr ([1], [500])"
proof -
  have e: "position_bins 2350 1000 = Inr ([1, 1175], [1174, 2350])" by code_simp
  from position_bins_partition [of 2350 1000] position_bins_partition [of 500 1000] e
  show ?thesis by auto
qed

section \<open>Properties of the matrix filler\<close>

subsection \<open>Binary search on a sorted list\<close>







lemma bisect_right_bounds:
  "lo \<le> hi \<Longrightarrow> lo \<le> bisect_right a x lo hi \<and> bisect_right a x lo hi \<le> hi"
proof (induction a x lo hi rule: bisect_right.induct)
  case (1 a x lo hi)
  show ?case
  proof (cases "lo < hi")
    case False
    then have "bisect_right a x lo hi = lo" by (subst bisect_right.simps) simp
    with False "1.prems" show ?thesis by simp
  next
    case True
    define mid where "mid = (lo + hi) div 2"
    have mid: "lo \<le> mid" "mid < hi" using True by (auto simp: mid_def)
    show ?thesis
    proof (cases "x < a ! mid")
      case lt: True
      have "bisect_right a x lo hi = bisect_right a x lo mid"
        using True lt by (simp add: bisect_right.simps [of a x lo hi] mid_def Let_def)
      with "1.IH"(1) [OF True mid_def lt] mid show ?thesis by simp
    next
      case ge: False
      have "bisect_right a x lo hi = bisect_right a x (mid + 1) hi"
        using True ge by (simp add: bisect_right.simps [of a x lo hi] mid_def Let_def)
      with "1.IH"(2) [OF True mid_def ge] mid show ?thesis by simp
    qed
  qed
qed

lemma bisect_right_spec:
  "sorted a \<Longrightarrow> lo \<le> hi \<Longrightarrow> hi \<le> length a \<Longrightarrow> (\<forall>i<lo. a ! i \<le> x) \<Longrightarrow>
     (\<forall>i. hi \<le> i \<and> i < length a \<longrightarrow> x < a ! i) \<Longrightarrow>
     (\<forall>i<bisect_right a x lo hi. a ! i \<le> x) \<and>
     (\<forall>i. bisect_right a x lo hi \<le> i \<and> i < length a \<longrightarrow> x < a ! i)"
proof (induction a x lo hi rule: bisect_right.induct)
  case (1 a x lo hi)
  show ?case
  proof (cases "lo < hi")
    case False
    then have "bisect_right a x lo hi = lo" by (subst bisect_right.simps) simp
    with False "1.prems" show ?thesis by simp
  next
    case True
    define mid where "mid = (lo + hi) div 2"
    have mid: "lo \<le> mid" "mid < hi" using True by (auto simp: mid_def)
    have assms: "sorted a" using "1.prems" by simp
    show ?thesis
    proof (cases "x < a ! mid")
      case lt: True
      have above: "\<forall>i. mid \<le> i \<and> i < length a \<longrightarrow> x < a ! i"
      proof (intro allI impI)
        fix i assume "mid \<le> i \<and> i < length a"
        then have "a ! mid \<le> a ! i" using sorted_nth_mono [OF assms, of mid i] by blast
        with lt show "x < a ! i" by simp
      qed
      have eq: "bisect_right a x lo hi = bisect_right a x lo mid"
        using True lt by (simp add: bisect_right.simps [of a x lo hi] mid_def Let_def)
      have "(\<forall>i<bisect_right a x lo mid. a ! i \<le> x) \<and>
         (\<forall>i. bisect_right a x lo mid \<le> i \<and> i < length a \<longrightarrow> x < a ! i)"
        using "1.IH"(1) [OF True mid_def lt] mid "1.prems" above assms by simp
      with eq show ?thesis by simp
    next
      case ge: False
      have below: "\<forall>i<mid + 1. a ! i \<le> x"
      proof (intro allI impI)
        fix i assume "i < mid + 1"
        then have im: "i \<le> mid" by simp
        have ml: "mid < length a" using mid "1.prems" by simp
        have "a ! i \<le> a ! mid" by (rule sorted_nth_mono [OF assms im ml])
        with ge show "a ! i \<le> x" by simp
      qed
      have eq: "bisect_right a x lo hi = bisect_right a x (mid + 1) hi"
        using True ge by (simp add: bisect_right.simps [of a x lo hi] mid_def Let_def)
      have "(\<forall>i<bisect_right a x (mid + 1) hi. a ! i \<le> x) \<and>
         (\<forall>i. bisect_right a x (mid + 1) hi \<le> i \<and> i < length a \<longrightarrow> x < a ! i)"
        using "1.IH"(2) [OF True mid_def ge] mid "1.prems" below assms by simp
      with eq show ?thesis by simp
    qed
  qed
qed

lemma bisect_right_below_first:
  assumes "sorted a" "a \<noteq> []" "x < a ! 0"
  shows "bisect_right a x 0 (length a) = 0"
proof (rule ccontr)
  assume "bisect_right a x 0 (length a) \<noteq> 0"
  then have "0 < bisect_right a x 0 (length a)" by simp
  moreover have "(\<forall>i<bisect_right a x 0 (length a). a ! i \<le> x) \<and>
     (\<forall>i. bisect_right a x 0 (length a) \<le> i \<and> i < length a \<longrightarrow> x < a ! i)"
    by (rule bisect_right_spec [OF assms(1)]) auto
  ultimately have "a ! 0 \<le> x" by simp
  with assms(3) show False by simp
qed

subsection \<open>Crediting the bins\<close>









subsection \<open>The claims on the filler\<close>

text \<open>
  Claim C1.  A hit whose identity is below the lowest identity break gets the index
  \<open>- 1\<close>, and the claim says that it is skipped.  The code has no test of the index: the
  subscript \<open>- 1\<close> is the last row of the counts, the row of the break 100.  With the 60
  breaks of step 1/2 above 70 and a contig of length 2350 in bins of width 1000, the hit
  with identity 70 from 100 to 150 adds its 51 bases to row 59, and so does a hit with
  identity 65, below the lower bound that the docstring calls the minimum identity to
  consider; the hit with identity 70.6 adds them to row 0.
\<close>

theorem fill_read_below_lowest_break_wraps:
  "identity_breaks (1 / 2) 70 = Some (map (\<lambda>i. 70 + of_nat (Suc i) / 2) [0..<60])
   \<and> position_bins 2350 1000 = Inr ([1, 1175], [1174, 2350])
   \<and> int (bisect_right (map (\<lambda>i. 70 + of_nat (Suc i) / 2) [0..<60]) (70 :: rat) 0 60) - 1 = - 1
   \<and> map_sum id (\<lambda>m. m 1)
        (fill_read (map (\<lambda>i. 70 + of_nat (Suc i) / 2) [0..<60])
           [1 \<mapsto> ([1, 1175], [1174, 2350], replicate 60 [0, 0])] (1, 1, 70, 100, 150))
      = Inr (Some ([1, 1175], [1174, 2350], replicate 59 [0, 0] @ [[51, 0]]))
   \<and> map_sum id (\<lambda>m. m 1)
        (fill_read (map (\<lambda>i. 70 + of_nat (Suc i) / 2) [0..<60])
           [1 \<mapsto> ([1, 1175], [1174, 2350], replicate 60 [0, 0])] (1, 1, 65, 100, 150))
      = Inr (Some ([1, 1175], [1174, 2350], replicate 59 [0, 0] @ [[51, 0]]))
   \<and> map_sum id (\<lambda>m. m 1)
        (fill_read (map (\<lambda>i. 70 + of_nat (Suc i) / 2) [0..<60])
           [1 \<mapsto> ([1, 1175], [1174, 2350], replicate 60 [0, 0])] (1, 1, 353 / 5, 100, 150))
      = Inr (Some ([1, 1175], [1174, 2350], [51, 0] # replicate 59 [0, 0]))"
  by code_simp



section \<open>Properties of the alignment parser\<close>

subsection \<open>The loop and its batches\<close>






subsection \<open>Lines of a tabular file\<close>

lemma py_get_nonneg: "0 \<le> i \<Longrightarrow> nat i < length xs \<Longrightarrow> py_get xs i = Inr (xs ! nat i)"
  by (simp add: py_get_def py_index_def)

lemma note_contig_fields [simp]:
  "conn (note_contig c st) = conn st"
  "records (note_contig c st) = records st"
  "record_counter (note_contig c st) = record_counter st"
  by (simp_all add: note_contig_def)

lemma append_record_fields [simp]:
  "conn (append_record h st) = conn st"
  "records (append_record h st) = records st @ [h]"
  "record_counter (append_record h st) = record_counter st + 1"
  "contigs_in_sample (append_record h st) = contigs_in_sample st"
  by (simp_all add: append_record_def)




subsection \<open>Records with an edit-distance tag\<close>

lemma ascii_digit_not_space: "ascii_digit c \<Longrightarrow> \<not> py_isspace c"
  by (auto simp: ascii_digit_def py_isspace_def Let_def)

lemma ascii_digit_not_sign: "ascii_digit c \<Longrightarrow> c \<noteq> CHR ''-'' \<and> c \<noteq> CHR ''+'' \<and> c \<noteq> CHR ''_''"
  by (auto simp: ascii_digit_def Let_def)

lemma dropWhile_keep: "xs \<noteq> [] \<Longrightarrow> \<not> P (hd xs) \<Longrightarrow> dropWhile P xs = xs"
  by (cases xs) auto

lemma py_strip_digits:
  assumes "num \<noteq> []" "\<forall>c \<in> set num. ascii_digit c"
  shows "py_strip num = num"
proof -
  have "\<not> py_isspace (hd num)" using assms by (simp add: ascii_digit_not_space)
  then have a: "dropWhile py_isspace num = num" using assms(1) by (rule dropWhile_keep [rotated])
  have "hd (rev num) \<in> set num" using assms(1) by (simp add: hd_rev)
  then have "\<not> py_isspace (hd (rev num))" using assms(2) by (simp add: ascii_digit_not_space)
  then have "dropWhile py_isspace (rev num) = rev num"
    using assms(1) by (intro dropWhile_keep) simp_all
  with a show ?thesis by (simp add: py_strip_def)
qed

lemma int_digits_all:
  "\<forall>c \<in> set num. ascii_digit c \<Longrightarrow>
   int_digits prev acc num =
     (if num = [] then (if prev then Some acc else None)
      else Some (foldl (\<lambda>acc c. 10 * acc + digit_value c) acc num))"
  by (induction num arbitrary: prev acc) simp_all

lemma py_int_digits:
  assumes "num \<noteq> []" "\<forall>c \<in> set num. ascii_digit c"
  shows "py_int num = Some (decimal num)"
proof -
  obtain c cs where n: "num = c # cs" using assms(1) by (cases num) auto
  then have "ascii_digit c" using assms(2) by simp
  then have "c \<noteq> CHR ''-''" "c \<noteq> CHR ''+''" using ascii_digit_not_sign by blast+
  then show ?thesis
    using py_strip_digits [OF assms] int_digits_all [OF assms(2), of False 0]
    by (simp add: py_int_def decimal_def n)
qed

lemma digit_runs_digits:
  "\<forall>c \<in> set w. ascii_digit c \<Longrightarrow>
   \<forall>r \<in> set (digit_runs w s). r \<noteq> [] \<and> (\<forall>c \<in> set r. ascii_digit c)"
proof (induction s arbitrary: w)
  case Nil
  then show ?case by simp
next
  case (Cons a s)
  show ?case
  proof (cases "ascii_digit a")
    case True
    with Cons.prems have "\<forall>c \<in> set (w @ [a]). ascii_digit c" by simp
    from Cons.IH [OF this] True show ?thesis by simp
  next
    case False
    have "\<forall>r \<in> set (digit_runs [] s). r \<noteq> [] \<and> (\<forall>c \<in> set r. ascii_digit c)"
      by (rule Cons.IH) simp
    with False Cons.prems show ?thesis by simp
  qed
qed

lemma sum_ints_digits:
  "\<forall>r \<in> set rs. r \<noteq> [] \<and> (\<forall>c \<in> set r. ascii_digit c) \<Longrightarrow>
   sum_ints rs acc = Inr (acc + sum_list (map decimal rs))"
  by (induction rs arbitrary: acc) (simp_all add: py_int_digits)

lemma sum_ints_findall: "sum_ints (findall_digits tag) 0 = Inr (md_matches tag)"
  using sum_ints_digits [OF digit_runs_digits [of "[]" tag], of 0]
  by (simp add: findall_digits_def md_matches_def)

lemma find_mdz_scan:
  "k \<le> length segment \<Longrightarrow> \<exists>f \<in> set (take k segment). startswith f ''MD:Z:'' \<Longrightarrow>
   find_mdz segment (int k - 1) = Inr (last (filter (\<lambda>f. startswith f ''MD:Z:'') (take k segment)))"
proof (induction k)
  case 0
  then show ?case by simp
next
  case (Suc k)
  then have k: "k < length segment" by simp
  have tk: "take (Suc k) segment = take k segment @ [segment ! k]"
    using k by (simp add: take_Suc_conv_app_nth)
  show ?case
  proof (cases "startswith (segment ! k) ''MD:Z:''")
    case True
    then show ?thesis using k by (subst find_mdz.simps) (simp add: tk)
  next
    case False
    with Suc.prems(2) have ex: "\<exists>f \<in> set (take k segment). startswith f ''MD:Z:''"
      by (auto simp: tk)
    have "find_mdz segment (int k - 1)
        = Inr (last (filter (\<lambda>f. startswith f ''MD:Z:'') (take k segment)))"
      using k ex by (intro Suc.IH) simp_all
    then show ?thesis using k False by (subst find_mdz.simps) (simp add: tk)
  qed
qed

lemma find_mdz_last:
  assumes "\<exists>f \<in> set segment. startswith f ''MD:Z:''"
  shows "find_mdz segment (int (length segment) - 1)
     = Inr (last (filter (\<lambda>f. startswith f ''MD:Z:'') segment))"
  using find_mdz_scan [of "length segment" segment] assms by simp


lemma md_hit_zero:
  assumes "md_matches tag + md_mismatches tag = 0"
  shows "md_hit info tag segment = Inl ZeroDivisionError"
  unfolding md_hit_def sum_ints_findall
  using assms by (simp add: Let_def md_mismatches_def add.commute)


lemma sam_step_unfold:
  "sam_step contig_mag_corresp sample_name line st =
     (case flush_full sample_name st of Inl e \<Rightarrow> Inl e
      | Inr st' \<Rightarrow> sam_line contig_mag_corresp line st')"
  by (simp add: sam_step_def)



lemma parse_loop_raises:
  assumes "\<And>st. \<exists>e. step line st = Inl e"
  shows "line \<in> set input_reads \<Longrightarrow> \<exists>e. parse_loop step input_reads st = Inl e"
proof (induction input_reads arbitrary: st)
  case Nil
  then show ?case by simp
next
  case (Cons l ls)
  show ?case
  proof (cases "step l st")
    case (Inl e)
    then show ?thesis by simp
  next
    case (Inr st')
    with assms [of st] have "l \<noteq> line" by auto
    with Cons.prems have "line \<in> set ls" by simp
    from Cons.IH [OF this, of st'] Inr show ?thesis by simp
  qed
qed

lemma run_parse_raises:
  assumes "\<And>st. \<exists>e. step line st = Inl e" "line \<in> set input_reads"
  shows "\<exists>e. run_parse step s input_reads db = Inl e"
  using parse_loop_raises [where step = step, OF assms, of "\<lparr>record_counter = 0, records = [], contigs_in_sample = [], conn = db\<rparr>"]
  by (auto simp: run_parse_def)

lemma sam_line_zero:
  assumes "py_contains ''MD:Z:'' line" "3 \<le> length (py_split line)"
    and "contig_mag_corresp (py_split line ! 2) = Some info"
    and "\<exists>f \<in> set (py_split line). startswith f ''MD:Z:''"
    and "md_matches (md_tag_value (py_split line)) + md_mismatches (md_tag_value (py_split line)) = 0"
  shows "sam_line contig_mag_corresp line st = Inl ZeroDivisionError"
proof -
  have g2: "py_get (py_split line) 2 = Inr (py_split line ! 2)"
    using assms(2) by (simp add: py_get_nonneg)
  show ?thesis
    using assms(1,3) g2 find_mdz_last [OF assms(4)] md_hit_zero [OF assms(5)]
    by (simp add: sam_line_def Let_def md_tag_value_def)
qed

lemma bam_entry_line_zero:
  assumes "py_contains ''MD:Z:'' (to_string entry)" "3 \<le> length (py_split (to_string entry))"
    and "contig_mag_corresp (py_split (to_string entry) ! 2) = Some info"
    and "md_tag entry = Some tag"
    and "md_matches tag + md_mismatches tag = 0"
  shows "bam_entry_line contig_mag_corresp entry st = Inl ZeroDivisionError"
proof -
  have g2: "py_get (py_split (to_string entry)) 2 = Inr (py_split (to_string entry) ! 2)"
    using assms(2) by (simp add: py_get_nonneg)
  show ?thesis
    using assms(1,3,4) g2 md_hit_zero [OF assms(5)]
    by (simp add: bam_entry_line_def Let_def)
qed

lemma step_raises:
  assumes "\<And>st. line_fn line st = Inl e"
  shows "\<exists>e'. (case flush_full s st of Inl e \<Rightarrow> Inl e | Inr st' \<Rightarrow> line_fn line st') = Inl e'"
  using assms by (cases "flush_full s st") auto


subsection \<open>The claims on the parser\<close>





text \<open>
  Claim C3, amended.  The claim says that a SAM or BAM record whose tag gives
  \<open>matches + mismatches = 0\<close> is skipped and that the ingestion goes on.  The code divides
  by this sum without a test and handles no exception: for a record of a catalogued contig
  with such a tag the step raises ZeroDivisionError, and the parse of a file that contains
  such a record ends with an error instead of returning.
\<close>

theorem zero_length_record_raises:
  "(py_contains ''MD:Z:'' line \<and> 3 \<le> length (py_split line)
      \<and> contig_mag_corresp (py_split line ! 2) = Some info
      \<and> (\<exists>f \<in> set (py_split line). startswith f ''MD:Z:'')
      \<and> md_matches (md_tag_value (py_split line)) + md_mismatches (md_tag_value (py_split line)) = 0
    \<longrightarrow> sam_line contig_mag_corresp line st = Inl ZeroDivisionError
      \<and> (\<forall>input_reads. fs mapping_file = Some (TextFile input_reads) \<and> line \<in> set input_reads
            \<longrightarrow> (\<exists>e. save_reads_mapped py_float fs mapping_file sample_name ''sam''
                        contig_mag_corresp db = Inl e)))
   \<and> (py_contains ''MD:Z:'' (to_string entry) \<and> 3 \<le> length (py_split (to_string entry))
      \<and> contig_mag_corresp (py_split (to_string entry) ! 2) = Some info
      \<and> md_tag entry = Some tag
      \<and> md_matches tag + md_mismatches tag = 0
    \<longrightarrow> bam_entry_line contig_mag_corresp entry st = Inl ZeroDivisionError
      \<and> (\<forall>entries. fs mapping_file = Some (BamFile entries) \<and> entry \<in> set entries
            \<longrightarrow> (\<exists>e. save_reads_mapped py_float fs mapping_file sample_name ''bam''
                        contig_mag_corresp db = Inl e)))"
proof (intro conjI impI allI; elim conjE)
  assume a: "py_contains ''MD:Z:'' line" "3 \<le> length (py_split line)"
    "contig_mag_corresp (py_split line ! 2) = Some info"
    "\<exists>f \<in> set (py_split line). startswith f ''MD:Z:''"
    "md_matches (md_tag_value (py_split line)) + md_mismatches (md_tag_value (py_split line)) = 0"
  show "sam_line contig_mag_corresp line st = Inl ZeroDivisionError"
    by (rule sam_line_zero [where contig_mag_corresp = contig_mag_corresp, OF a])
  fix input_reads
  assume f: "fs mapping_file = Some (TextFile input_reads)" and l: "line \<in> set input_reads"
  have "\<exists>e. run_parse (sam_step contig_mag_corresp sample_name) sample_name input_reads db = Inl e"
  proof (rule run_parse_raises [OF _ l])
    fix st'
    show "\<exists>e. sam_step contig_mag_corresp sample_name line st' = Inl e"
      unfolding sam_step_unfold by (rule step_raises) (rule sam_line_zero [where contig_mag_corresp = contig_mag_corresp, OF a])
  qed
  then show "\<exists>e. save_reads_mapped py_float fs mapping_file sample_name ''sam'' contig_mag_corresp db = Inl e"
    using f by (simp add: save_reads_mapped_def)
next
  assume a: "py_contains ''MD:Z:'' (to_string entry)" "3 \<le> length (py_split (to_string entry))"
    "contig_mag_corresp (py_split (to_string entry) ! 2) = Some info"
    "md_tag entry = Some tag" "md_matches tag + md_mismatches tag = 0"
  show "bam_entry_line contig_mag_corresp entry st = Inl ZeroDivisionError"
    by (rule bam_entry_line_zero [where contig_mag_corresp = contig_mag_corresp, OF a])
  fix entries
  assume f: "fs mapping_file = Some (BamFile entries)" and l: "entry \<in> set entries"
  have "\<exists>e. run_parse (bam_step contig_mag_corresp sample_name) sample_name entries db = Inl e"
  proof (rule run_parse_raises [OF _ l])
    fix st'
    show "\<exists>e. bam_step contig_mag_corresp sample_name entry st' = Inl e"
      unfolding bam_step_def by (rule step_raises) (rule bam_entry_line_zero [where contig_mag_corresp = contig_mag_corresp, OF a])
  qed
  then show "\<exists>e. save_reads_mapped py_float fs mapping_file sample_name ''bam'' contig_mag_corresp db = Inl e"
    using f by (simp add: save_reads_mapped_def)
qed

theorem zero_length_record_raises_witness:
  "py_contains ''MD:Z:'' (tab_line [''r0'', ''0'', ''ctgA'', ''100'', ''60'', ''*'', ''*'', ''0'', ''0'', ''*'', ''*'', ''MD:Z:0''])
   \<and> md_matches ''0'' + md_mismatches ''0'' = 0
   \<and> sam_line [''ctgA'' \<mapsto> (''mag1'', 1, 1)]
        (tab_line [''r0'', ''0'', ''ctgA'', ''100'', ''60'', ''*'', ''*'', ''0'', ''0'', ''*'', ''*'', ''MD:Z:0''])
        \<lparr>record_counter = 0, records = [], contigs_in_sample = [], conn = \<lparr>lookup_table = [], mag_info = [], sample_info = [],
           mags_per_sample = [], sample_tables = Map.empty\<rparr>\<rparr>
      = Inl ZeroDivisionError
   \<and> bam_entry_line [''ctgA'' \<mapsto> (''mag1'', 1, 1)]
        \<lparr>to_string = tab_line [''r0'', ''0'', ''ctgA'', ''100'', ''60'', ''*'', ''*'', ''0'', ''0'', ''*'', ''*'', ''MD:Z:0''],
         md_tag = Some ''0''\<rparr>
        \<lparr>record_counter = 0, records = [], contigs_in_sample = [], conn = \<lparr>lookup_table = [], mag_info = [], sample_info = [],
           mags_per_sample = [], sample_tables = Map.empty\<rparr>\<rparr>
      = Inl ZeroDivisionError"
proof -
  let ?l = "tab_line [''r0'', ''0'', ''ctgA'', ''100'', ''60'', ''*'', ''*'', ''0'', ''0'', ''*'', ''*'', ''MD:Z:0'']"
  let ?c = "[''ctgA'' \<mapsto> (''mag1'', 1 :: int, 1 :: int)]"
  have a: "py_contains ''MD:Z:'' ?l" by code_simp
  have b: "3 \<le> length (py_split ?l)" by code_simp
  have c: "?c (py_split ?l ! 2) = Some (''mag1'', 1, 1)" by code_simp
  have d: "\<exists>f \<in> set (py_split ?l). startswith f ''MD:Z:''" by code_simp
  have e: "md_matches (md_tag_value (py_split ?l)) + md_mismatches (md_tag_value (py_split ?l)) = 0"
    by code_simp
  have z: "md_matches ''0'' + md_mismatches ''0'' = 0" by code_simp
  from zero_length_record_raises [where line = ?l and contig_mag_corresp = ?c
      and info = "(''mag1'', 1, 1)" and tag = "''0''"
      and entry = "\<lparr>to_string = ?l, md_tag = Some ''0''\<rparr>"
      and st = "\<lparr>record_counter = 0, records = [], contigs_in_sample = [], conn = \<lparr>lookup_table = [], mag_info = [], sample_info = [],
           mags_per_sample = [], sample_tables = Map.empty\<rparr>\<rparr>"]
    a b c d e z
  show ?thesis by simp
qed

text \<open>
  The claim C3 as stated fails on a file whose first record has the tag \<^verbatim>\<open>MD:Z:0\<close>: the
  parse ends with ZeroDivisionError although the next record is a good one.
\<close>

theorem zero_length_record_counterexample:
  "(case save_reads_mapped (\<lambda>s. None)
          [''reads.sam'' \<mapsto> TextFile
             [tab_line [''r0'', ''0'', ''ctgA'', ''100'', ''60'', ''*'', ''*'', ''0'', ''0'', ''*'', ''*'', ''MD:Z:0''],
              tab_line [''r1'', ''0'', ''ctgA'', ''100'', ''60'', ''16M'', ''*'', ''0'', ''0'', ''ACGTACGTACGTACGT'', ''*'', ''MD:Z:10A5'']]]
          ''reads.sam'' ''sample_1'' ''sam'' [''ctgA'' \<mapsto> (''mag1'', 1, 1)]
          \<lparr>lookup_table = [(''mag1'', 1, ''ctgA'', 1)], mag_info = [(1, 1, 2350)],
           sample_info = [(''reads.sam'', ''sample_1'', 1)], mags_per_sample = [],
           sample_tables = [''sample_1'' \<mapsto> ([], False)]\<rparr> of
      Inl e \<Rightarrow> e = ZeroDivisionError
    | Inr r \<Rightarrow> False)
   \<and> (case save_reads_mapped (\<lambda>s. None)
          [''reads.bam'' \<mapsto> BamFile
             [\<lparr>to_string = tab_line [''r0'', ''0'', ''ctgA'', ''100'', ''60'', ''*'', ''*'', ''0'', ''0'', ''*'', ''*'', ''MD:Z:0''],
               md_tag = Some ''0''\<rparr>,
              \<lparr>to_string = tab_line [''r1'', ''0'', ''ctgA'', ''100'', ''60'', ''16M'', ''*'', ''0'', ''0'', ''ACGTACGTACGTACGT'', ''*'', ''MD:Z:10A5''],
               md_tag = Some ''10A5''\<rparr>]]
          ''reads.bam'' ''sample_1'' ''bam'' [''ctgA'' \<mapsto> (''mag1'', 1, 1)]
          \<lparr>lookup_table = [(''mag1'', 1, ''ctgA'', 1)], mag_info = [(1, 1, 2350)],
           sample_info = [(''reads.bam'', ''sample_1'', 1)], mags_per_sample = [],
           sample_tables = [''sample_1'' \<mapsto> ([], False)]\<rparr> of
      Inl e \<Rightarrow> e = ZeroDivisionError
    | Inr r \<Rightarrow> False)"
  by code_simp

section \<open>Properties of the catalog construction\<close>


lemma identify_contigs_names:
  "map (\<lambda>(mag_name, mag_id, contig_name, contig_id). contig_name)
       (identify_contigs contig_mag_corresp mag_ids mag_id contig_id contig_identifiers)
   = map (\<lambda>(mag_name, mag_id, contig_name, contig_id). contig_name) contig_identifiers
       @ map fst contig_mag_corresp"
proof (induction contig_mag_corresp arbitrary: mag_ids mag_id contig_id contig_identifiers)
  case Nil
  then show ?case by simp
next
  case (Cons p rest)
  obtain contig_name mag_name where p: "p = (contig_name, mag_name)" by (cases p)
  show ?case unfolding p by (cases "mag_ids mag_name") (simp_all add: Cons.IH)
qed

lemma identify_contigs_ids:
  "map (\<lambda>(mag_name, mag_id, contig_name, contig_id). contig_id)
       (identify_contigs contig_mag_corresp mag_ids mag_id contig_id contig_identifiers)
   = map (\<lambda>(mag_name, mag_id, contig_name, contig_id). contig_id) contig_identifiers
       @ map (\<lambda>i. contig_id + int i) [0..<length contig_mag_corresp]"
proof (induction contig_mag_corresp arbitrary: mag_ids mag_id contig_id contig_identifiers)
  case Nil
  then show ?case by simp
next
  case (Cons p rest)
  obtain contig_name mag_name where p: "p = (contig_name, mag_name)" by (cases p)
  have shift: "map (\<lambda>i. contig_id + 1 + int i) [0..<length rest]
      = map (\<lambda>i. contig_id + int i) [Suc 0..<Suc (length rest)]"
    by (simp add: map_Suc_upt [symmetric] del: upt_Suc)
  have upt: "[0..<Suc (length rest)] = 0 # [Suc 0..<Suc (length rest)]"
    by (simp add: upt_conv_Cons del: upt_Suc)
  show ?case unfolding p
    by (cases "mag_ids mag_name") (simp_all add: Cons.IH shift upt del: upt_Suc)
qed

lemma catalog_ids_distinct:
  "distinct (map (\<lambda>(mag_name, mag_id, contig_name, contig_id). contig_id)
       (identify_contigs contig_mag_corresp Map.empty 0 1 []))"
  unfolding identify_contigs_ids
  by (simp add: distinct_map inj_on_def)

lemma select_contig_Nil: "select_contig [] contig = None"
  by (simp add: select_contig_def)

lemma select_contig_Cons:
  "select_contig ((mag_name, mag_id, contig_name, contig_id) # table) contig
   = (if contig_name = contig then Some (mag_id, contig_id) else select_contig table contig)"
  by (simp add: select_contig_def)

lemma select_contig_None:
  "select_contig table contig = None
   \<longleftrightarrow> contig \<notin> set (map (\<lambda>(mag_name, mag_id, contig_name, contig_id). contig_name) table)"
proof (induction table)
  case Nil
  show ?case by (simp add: select_contig_Nil)
next
  case (Cons row table)
  obtain mag_name mag_id contig_name contig_id where
    row: "row = (mag_name, mag_id, contig_name, contig_id)" by (cases row)
  show ?case unfolding row select_contig_Cons using Cons.IH by auto
qed

lemma select_contig_Some:
  "select_contig table contig = Some (mag_id, contig_id) \<Longrightarrow>
   \<exists>mag_name. (mag_name, mag_id, contig, contig_id) \<in> set table"
proof (induction table)
  case Nil
  then show ?case by (simp add: select_contig_Nil)
next
  case (Cons row table)
  obtain mag_name' mag_id' contig_name' contig_id' where
    row: "row = (mag_name', mag_id', contig_name', contig_id')" by (cases row)
  show ?case
  proof (cases "contig_name' = contig")
    case True
    with Cons.prems show ?thesis unfolding row select_contig_Cons by auto
  next
    case False
    with Cons.prems have "select_contig table contig = Some (mag_id, contig_id)"
      unfolding row select_contig_Cons by simp
    from Cons.IH [OF this] show ?thesis by auto
  qed
qed

lemma join_lengths_fails:
  "\<exists>contig \<in> fst ` set contig_sizes.
      contig \<notin> set (map (\<lambda>(mag_name, mag_id, contig_name, contig_id). contig_name) table) \<Longrightarrow>
   join_lengths table contig_sizes contig_lengths = Inl TypeError"
proof (induction contig_sizes arbitrary: contig_lengths)
  case Nil
  then show ?case by simp
next
  case (Cons p rest)
  obtain contig contig_len where p: "p = (contig, contig_len)" by (cases p)
  show ?case
  proof (cases "select_contig table contig")
    case None
    then show ?thesis by (simp add: p)
  next
    case (Some ids)
    then have "contig \<in> set (map (\<lambda>(mag_name, mag_id, contig_name, contig_id). contig_name) table)"
      using select_contig_None [of table contig] by auto
    with Cons.prems have "\<exists>contig \<in> fst ` set rest.
      contig \<notin> set (map (\<lambda>(mag_name, mag_id, contig_name, contig_id). contig_name) table)"
      by (auto simp: p)
    from Cons.IH [OF this] Some show ?thesis by (cases ids) (simp add: p)
  qed
qed

lemma join_lengths_succeeds:
  "\<forall>contig \<in> fst ` set contig_sizes.
      contig \<in> set (map (\<lambda>(mag_name, mag_id, contig_name, contig_id). contig_name) table) \<Longrightarrow>
   \<exists>rows. join_lengths table contig_sizes contig_lengths = Inr (contig_lengths @ rows)
     \<and> length rows = length contig_sizes
     \<and> (\<forall>mag_id contig_id contig_len. (mag_id, contig_id, contig_len) \<in> set rows \<longrightarrow>
          (\<exists>contig mag_name. contig \<in> fst ` set contig_sizes
            \<and> (mag_name, mag_id, contig, contig_id) \<in> set table))"
proof (induction contig_sizes arbitrary: contig_lengths)
  case Nil
  then show ?case by simp
next
  case (Cons p rest)
  obtain contig contig_len where p: "p = (contig, contig_len)" by (cases p)
  from Cons.prems have "select_contig table contig \<noteq> None"
    using select_contig_None [of table contig] by (simp add: p)
  then obtain mag_id contig_id where s: "select_contig table contig = Some (mag_id, contig_id)"
    by auto
  from select_contig_Some [OF s] obtain mag_name where
    row: "(mag_name, mag_id, contig, contig_id) \<in> set table" by blast
  have "\<forall>contig \<in> fst ` set rest.
      contig \<in> set (map (\<lambda>(mag_name, mag_id, contig_name, contig_id). contig_name) table)"
    using Cons.prems by (simp add: p)
  from Cons.IH [OF this, of "contig_lengths @ [(mag_id, contig_id, contig_len)]"]
  obtain rows where
    r: "join_lengths table rest (contig_lengths @ [(mag_id, contig_id, contig_len)])
        = Inr ((contig_lengths @ [(mag_id, contig_id, contig_len)]) @ rows)"
    and l: "length rows = length rest"
    and m: "\<forall>mag_id contig_id contig_len. (mag_id, contig_id, contig_len) \<in> set rows \<longrightarrow>
          (\<exists>contig mag_name. contig \<in> fst ` set rest
            \<and> (mag_name, mag_id, contig, contig_id) \<in> set table)" by blast
  have a: "join_lengths table (p # rest) contig_lengths
      = Inr (contig_lengths @ ((mag_id, contig_id, contig_len) # rows))"
    using s r by (simp add: p)
  have b: "length ((mag_id, contig_id, contig_len) # rows) = length (p # rest)"
    using l by simp
  have c: "\<forall>mi ci cl. (mi, ci, cl) \<in> set ((mag_id, contig_id, contig_len) # rows) \<longrightarrow>
          (\<exists>contig mag_name. contig \<in> fst ` set (p # rest)
            \<and> (mag_name, mi, contig, ci) \<in> set table)"
  proof (intro allI impI)
    fix mi ci cl
    assume "(mi, ci, cl) \<in> set ((mag_id, contig_id, contig_len) # rows)"
    then consider "mi = mag_id" "ci = contig_id" | "(mi, ci, cl) \<in> set rows" by auto
    then show "\<exists>contig mag_name. contig \<in> fst ` set (p # rest)
            \<and> (mag_name, mi, contig, ci) \<in> set table"
    proof cases
      case 1
      have "contig \<in> fst ` set (p # rest)" by (simp add: p)
      with row 1 show ?thesis by blast
    next
      case 2
      with m obtain c' mn where "c' \<in> fst ` set rest" "(mn, mi, c', ci) \<in> set table" by blast
      then have "c' \<in> fst ` set (p # rest) \<and> (mn, mi, c', ci) \<in> set table" by simp
      then show ?thesis by blast
    qed
  qed
  show ?case
    by (rule exI [of _ "(mag_id, contig_id, contig_len) # rows"]) (use a b c in blast)
qed

lemma catalog_unfold:
  assumes "distinct sample_reads"
  shows "sqldb_creation_catalog contig_sizes contig_mag_corresp sample_reads db =
     (case join_lengths (identify_contigs contig_mag_corresp Map.empty 0 1 []) contig_sizes [] of
        Inl e \<Rightarrow> Inl e
      | Inr contig_lengths \<Rightarrow>
          Inr (db\<lparr>lookup_table := identify_contigs contig_mag_corresp Map.empty 0 1 [],
                  mag_info := contig_lengths,
                  sample_info := number_samples sample_reads 1, mags_per_sample := []\<rparr>))"
  using assms by (simp add: sqldb_creation_catalog_def Let_def)

lemma catalog_names:
  "set (map (\<lambda>(mag_name, mag_id, contig_name, contig_id). contig_name)
       (identify_contigs contig_mag_corresp Map.empty 0 1 [])) = fst ` set contig_mag_corresp"
  by (simp add: identify_contigs_names)

lemma ids_determine_row:
  assumes "distinct (map (\<lambda>(mag_name, mag_id, contig_name, contig_id). contig_id) table)"
    and "(mag_name, mag_id, contig, contig_id) \<in> set table"
    and "(mag_name', mag_id', contig', contig_id) \<in> set table"
  shows "contig' = contig"
proof -
  have "inj_on (\<lambda>(mag_name, mag_id, contig_name, contig_id). contig_id) (set table)"
    using assms(1) by (simp add: distinct_map)
  from inj_onD [OF this _ assms(2,3)] show ?thesis by simp
qed

subsection \<open>The claims on the catalog\<close>

text \<open>
  Claim C10.  The sample names being distinct (the unique index on them is created before),
  a contig name of the contig lengths that is not in the membership input makes the build
  fail with TypeError: the lookup of the name returns no row and its subscript fails, in
  the loop of the join, before the rows of the contig lengths are handed to the one
  \<^verbatim>\<open>INSERT\<close> that writes them.  When every contig of the lengths is in the membership
  input the build returns; the lookup relation has a row for every contig of the
  membership input, the contig-length relation has one row for each contig of the lengths,
  and a contig of the membership input that is missing from the lengths has no row in it:
  it is left out without any report.
\<close>

theorem catalog_lengths_need_membership:
  assumes "distinct sample_reads"
  shows "((\<exists>contig \<in> fst ` set contig_sizes. contig \<notin> fst ` set contig_mag_corresp) \<longrightarrow>
            join_lengths (identify_contigs contig_mag_corresp Map.empty 0 1 []) contig_sizes []
              = Inl TypeError
          \<and> sqldb_creation_catalog contig_sizes contig_mag_corresp sample_reads db = Inl TypeError)
     \<and> (fst ` set contig_sizes \<subseteq> fst ` set contig_mag_corresp \<longrightarrow>
          (\<exists>db'. sqldb_creation_catalog contig_sizes contig_mag_corresp sample_reads db = Inr db'
             \<and> map (\<lambda>(mag_name, mag_id, contig_name, contig_id). contig_name) (lookup_table db')
                 = map fst contig_mag_corresp
             \<and> length (mag_info db') = length contig_sizes
             \<and> (\<forall>contig mag_name mag_id contig_id.
                   (mag_name, mag_id, contig, contig_id) \<in> set (lookup_table db')
                   \<and> contig \<notin> fst ` set contig_sizes
                   \<longrightarrow> (\<forall>m l. (m, contig_id, l) \<notin> set (mag_info db')))))"
proof (intro conjI impI)
  let ?table = "identify_contigs contig_mag_corresp Map.empty 0 1 []"
  assume "\<exists>contig \<in> fst ` set contig_sizes. contig \<notin> fst ` set contig_mag_corresp"
  then have "\<exists>contig \<in> fst ` set contig_sizes.
      contig \<notin> set (map (\<lambda>(mag_name, mag_id, contig_name, contig_id). contig_name) ?table)"
    unfolding catalog_names .
  then show j: "join_lengths ?table contig_sizes [] = Inl TypeError"
    by (rule join_lengths_fails)
  show "sqldb_creation_catalog contig_sizes contig_mag_corresp sample_reads db = Inl TypeError"
    unfolding catalog_unfold [OF assms] j by simp
next
  let ?table = "identify_contigs contig_mag_corresp Map.empty 0 1 []"
  assume "fst ` set contig_sizes \<subseteq> fst ` set contig_mag_corresp"
  then have "\<forall>contig \<in> fst ` set contig_sizes.
      contig \<in> set (map (\<lambda>(mag_name, mag_id, contig_name, contig_id). contig_name) ?table)"
    unfolding catalog_names by blast
  from join_lengths_succeeds [OF this, of "[]"] obtain rows where
    j: "join_lengths ?table contig_sizes [] = Inr rows"
    and l: "length rows = length contig_sizes"
    and m: "\<forall>mag_id contig_id contig_len. (mag_id, contig_id, contig_len) \<in> set rows \<longrightarrow>
          (\<exists>contig mag_name. contig \<in> fst ` set contig_sizes
            \<and> (mag_name, mag_id, contig, contig_id) \<in> set ?table)" by auto
  let ?db' = "db\<lparr>lookup_table := ?table, mag_info := rows,
      sample_info := number_samples sample_reads 1, mags_per_sample := []\<rparr>"
  have res: "sqldb_creation_catalog contig_sizes contig_mag_corresp sample_reads db = Inr ?db'"
    unfolding catalog_unfold [OF assms] j by simp
  have names: "map (\<lambda>(mag_name, mag_id, contig_name, contig_id). contig_name) (lookup_table ?db')
      = map fst contig_mag_corresp"
    by (simp add: identify_contigs_names)
  have omitted: "\<forall>contig mag_name mag_id contig_id.
      (mag_name, mag_id, contig, contig_id) \<in> set (lookup_table ?db')
      \<and> contig \<notin> fst ` set contig_sizes
      \<longrightarrow> (\<forall>m l. (m, contig_id, l) \<notin> set (mag_info ?db'))"
  proof (intro allI impI notI)
    fix contig mag_name mag_id contig_id m l
    assume a: "(mag_name, mag_id, contig, contig_id) \<in> set (lookup_table ?db')
      \<and> contig \<notin> fst ` set contig_sizes"
      and b: "(m, contig_id, l) \<in> set (mag_info ?db')"
    from b have "(m, contig_id, l) \<in> set rows" by simp
    with m have "\<exists>contig mag_name. contig \<in> fst ` set contig_sizes
            \<and> (mag_name, m, contig, contig_id) \<in> set ?table" by blast
    then obtain contig' mag_name' where
      c: "contig' \<in> fst ` set contig_sizes" and d: "(mag_name', m, contig', contig_id) \<in> set ?table"
      by blast
    from a have e: "(mag_name, mag_id, contig, contig_id) \<in> set ?table" by simp
    have "contig' = contig" by (rule ids_determine_row [OF catalog_ids_distinct e d])
    with a c show False by simp
  qed
  show "\<exists>db'. sqldb_creation_catalog contig_sizes contig_mag_corresp sample_reads db = Inr db'
             \<and> map (\<lambda>(mag_name, mag_id, contig_name, contig_id). contig_name) (lookup_table db')
                 = map fst contig_mag_corresp
             \<and> length (mag_info db') = length contig_sizes
             \<and> (\<forall>contig mag_name mag_id contig_id.
                   (mag_name, mag_id, contig, contig_id) \<in> set (lookup_table db')
                   \<and> contig \<notin> fst ` set contig_sizes
                   \<longrightarrow> (\<forall>m l. (m, contig_id, l) \<notin> set (mag_info db')))"
    by (rule exI [of _ ?db']) (use res names l omitted in simp)
qed

theorem catalog_lengths_need_membership_witness:
  "distinct [''reads.blast'']
   \<and> sqldb_creation_catalog [(''ctgA'', 2350), (''ctgZ'', 10)] [(''ctgA'', ''mag1'')] [''reads.blast'']
        \<lparr>lookup_table = [], mag_info = [], sample_info = [], mags_per_sample = [],
         sample_tables = Map.empty\<rparr> = Inl TypeError
   \<and> (\<exists>db'. sqldb_creation_catalog [(''ctgA'', 2350)] [(''ctgA'', ''mag1''), (''ctgB'', ''mag1'')]
          [''reads.blast'']
          \<lparr>lookup_table = [], mag_info = [], sample_info = [], mags_per_sample = [],
           sample_tables = Map.empty\<rparr> = Inr db'
        \<and> length (mag_info db') = length [(''ctgA'', 2350 :: int)])"
proof -
  have d: "distinct [''reads.blast'']" by simp
  let ?db = "\<lparr>lookup_table = [], mag_info = [], sample_info = [], mags_per_sample = [],
         sample_tables = Map.empty\<rparr>"
  have f: "\<exists>contig \<in> fst ` set [(''ctgA'', 2350 :: int), (''ctgZ'', 10)].
      contig \<notin> fst ` set [(''ctgA'', ''mag1'')]" by simp
  have s: "fst ` set [(''ctgA'', 2350 :: int)] \<subseteq> fst ` set [(''ctgA'', ''mag1''), (''ctgB'', ''mag1'')]"
    by simp
  from catalog_lengths_need_membership [OF d, where contig_sizes = "[(''ctgA'', 2350), (''ctgZ'', 10)]"
      and contig_mag_corresp = "[(''ctgA'', ''mag1'')]" and db = ?db] f
  have 1: "sqldb_creation_catalog [(''ctgA'', 2350), (''ctgZ'', 10)] [(''ctgA'', ''mag1'')]
      [''reads.blast''] ?db = Inl TypeError" by blast
  from catalog_lengths_need_membership [OF d, where contig_sizes = "[(''ctgA'', 2350)]"
      and contig_mag_corresp = "[(''ctgA'', ''mag1''), (''ctgB'', ''mag1'')]" and db = ?db] s
  have 2: "\<exists>db'. sqldb_creation_catalog [(''ctgA'', 2350)] [(''ctgA'', ''mag1''), (''ctgB'', ''mag1'')]
          [''reads.blast''] ?db = Inr db'
        \<and> length (mag_info db') = length [(''ctgA'', 2350 :: int)]" by blast
  from d 1 2 show ?thesis by blast
qed

text \<open>
  Claim C5, amended.  The claim says that the build fails when a contig of the membership
  input has no length.  The code joins the other way round, from the lengths to the lookup
  relation: the build fails exactly when some contig of the contig lengths has no entry in
  the membership input (the sample names being distinct), the error is TypeError, not a
  ReferenceError, and it is raised by the join of the lengths, not by the reading of the
  inputs.  A contig of the membership input without a length raises nothing.
\<close>

theorem catalog_fails_on_length_without_membership:
  assumes "distinct sample_reads"
  shows "(sqldb_creation_catalog contig_sizes contig_mag_corresp sample_reads db = Inl TypeError
          \<longleftrightarrow> (\<exists>contig \<in> fst ` set contig_sizes. contig \<notin> fst ` set contig_mag_corresp))
     \<and> (\<forall>e. sqldb_creation_catalog contig_sizes contig_mag_corresp sample_reads db = Inl e
          \<longrightarrow> e = TypeError
            \<and> join_lengths (identify_contigs contig_mag_corresp Map.empty 0 1 []) contig_sizes []
                = Inl TypeError)
     \<and> (fst ` set contig_sizes \<subseteq> fst ` set contig_mag_corresp
          \<longrightarrow> (\<exists>db'. sqldb_creation_catalog contig_sizes contig_mag_corresp sample_reads db = Inr db'))"
proof -
  let ?table = "identify_contigs contig_mag_corresp Map.empty 0 1 []"
  let ?res = "sqldb_creation_catalog contig_sizes contig_mag_corresp sample_reads db"
  have fails: "\<exists>contig \<in> fst ` set contig_sizes. contig \<notin> fst ` set contig_mag_corresp
      \<Longrightarrow> join_lengths ?table contig_sizes [] = Inl TypeError"
    by (rule join_lengths_fails) (simp only: catalog_names)
  have succeeds: "\<exists>rows. join_lengths ?table contig_sizes [] = Inr rows"
    if "\<not> (\<exists>contig \<in> fst ` set contig_sizes. contig \<notin> fst ` set contig_mag_corresp)"
  proof -
    from that have "\<forall>contig \<in> fst ` set contig_sizes.
      contig \<in> set (map (\<lambda>(mag_name, mag_id, contig_name, contig_id). contig_name) ?table)"
      unfolding catalog_names by blast
    from join_lengths_succeeds [OF this, of "[]"] show ?thesis by auto
  qed
  show ?thesis
  proof (cases "\<exists>contig \<in> fst ` set contig_sizes. contig \<notin> fst ` set contig_mag_corresp")
    case True
    from fails [OF True] have j: "join_lengths ?table contig_sizes [] = Inl TypeError" .
    have "?res = Inl TypeError" unfolding catalog_unfold [OF assms] j by simp
    with True j show ?thesis by auto
  next
    case False
    from succeeds [OF False] obtain rows where j: "join_lengths ?table contig_sizes [] = Inr rows"
      by blast
    have "\<exists>db'. ?res = Inr db'" unfolding catalog_unfold [OF assms] j by simp
    with False show ?thesis by auto
  qed
qed

theorem catalog_fails_on_length_without_membership_witness:
  "distinct [''reads.blast'']
   \<and> sqldb_creation_catalog [(''ctgA'', 2350), (''ctgZ'', 10)] [(''ctgA'', ''mag1'')] [''reads.blast'']
        \<lparr>lookup_table = [], mag_info = [], sample_info = [], mags_per_sample = [],
         sample_tables = Map.empty\<rparr> = Inl TypeError"
proof -
  have d: "distinct [''reads.blast'']" by simp
  have f: "\<exists>contig \<in> fst ` set [(''ctgA'', 2350 :: int), (''ctgZ'', 10)].
      contig \<notin> fst ` set [(''ctgA'', ''mag1'')]" by simp
  from catalog_fails_on_length_without_membership [OF d,
      where contig_sizes = "[(''ctgA'', 2350), (''ctgZ'', 10)]"
      and contig_mag_corresp = "[(''ctgA'', ''mag1'')]"
      and db = "\<lparr>lookup_table = [], mag_info = [], sample_info = [], mags_per_sample = [],
         sample_tables = Map.empty\<rparr>"] f d
  show ?thesis by blast
qed

text \<open>
  The claim C5 as stated fails when the contig \<^verbatim>\<open>ctgB\<close> is in the membership input and
  has no length: the build returns, with \<^verbatim>\<open>ctgB\<close> in the lookup relation and absent from
  the contig lengths.
\<close>

theorem membership_without_length_counterexample:
  "(case sqldb_creation_catalog [(''ctgA'', 2350)] [(''ctgA'', ''mag1''), (''ctgB'', ''mag1'')]
          [''reads.blast'']
          \<lparr>lookup_table = [], mag_info = [], sample_info = [], mags_per_sample = [],
           sample_tables = Map.empty\<rparr> of
      Inl e \<Rightarrow> False
    | Inr db' \<Rightarrow>
        lookup_table db' = [(''mag1'', 1, ''ctgA'', 1), (''mag1'', 1, ''ctgB'', 2)]
        \<and> mag_info db' = [(1, 1, 2350)]
        \<and> sample_info db' = [(''reads.blast'', ''sample_1'', 1)])"
  by code_simp

section \<open>Properties of adding and rebuilding samples\<close>

subsection \<open>What the parser changes in the database\<close>

lemma only_table_refl: "only_table s db db"
  by (simp add: only_table_def)

lemma only_table_trans:
  assumes "only_table s db db1" "only_table s db1 db2"
  shows "only_table s db db2"
proof -
  from assms(1) have 1: "db1 = db\<lparr>sample_tables := (sample_tables db)(s := sample_tables db1 s)\<rparr>"
    by (simp add: only_table_def)
  from assms(2) have 2: "db2 = db1\<lparr>sample_tables := (sample_tables db1)(s := sample_tables db2 s)\<rparr>"
    by (simp add: only_table_def)
  have "db2 = db\<lparr>sample_tables := (sample_tables db)(s := sample_tables db2 s)\<rparr>"
    by (subst 2, subst 1, subst (2) 1) simp
  then show ?thesis by (simp add: only_table_def)
qed

lemma insert_hits_only:
  "insert_hits s hs db = Inr db' \<Longrightarrow> only_table s db db'"
  by (auto simp: insert_hits_def only_table_def split: option.splits)

lemma create_index_only:
  "create_index s db = Inr db' \<Longrightarrow> only_table s db db'"
  by (auto simp: create_index_def only_table_def split: option.splits if_splits)

lemma flush_full_only:
  "flush_full s st = Inr st' \<Longrightarrow> only_table s (conn st) (conn st')"
  by (auto simp: flush_full_def only_table_refl split: if_splits sum.splits dest: insert_hits_only)

lemma parse_loop_only:
  assumes "\<And>line st st'. step line st = Inr st' \<Longrightarrow> only_table s (conn st) (conn st')"
  shows "parse_loop step input_reads st = Inr st' \<Longrightarrow> only_table s (conn st) (conn st')"
proof (induction input_reads arbitrary: st)
  case Nil
  then show ?case by (simp add: only_table_refl)
next
  case (Cons l ls)
  then obtain st1 where 1: "step l st = Inr st1" and 2: "parse_loop step ls st1 = Inr st'"
    by (auto split: sum.splits)
  from only_table_trans [OF assms [OF 1] Cons.IH [OF 2]] show ?case .
qed

lemma finish_parse_only:
  assumes "finish_parse s st = Inr (contigs, db')"
  shows "only_table s (conn st) db'"
proof -
  from assms obtain db1 where
    1: "(if record_counter st > 0 then insert_hits s (records st) (conn st) else Inr (conn st)) = Inr db1"
    and 2: "create_index s db1 = Inr db'"
    by (auto simp: finish_parse_def split: sum.splits)
  from 1 have "only_table s (conn st) db1"
    by (auto split: if_splits simp: only_table_refl dest: insert_hits_only)
  from only_table_trans [OF this create_index_only [OF 2]] show ?thesis .
qed

lemma run_parse_only:
  assumes "\<And>line st st'. step line st = Inr st' \<Longrightarrow> only_table s (conn st) (conn st')"
    and "run_parse step s input_reads db = Inr (contigs, db')"
  shows "only_table s db db'"
proof -
  from assms(2) obtain st where
    1: "parse_loop step input_reads \<lparr>record_counter = 0, records = [], contigs_in_sample = [], conn = db\<rparr>
        = Inr st"
    and 2: "finish_parse s st = Inr (contigs, db')"
    by (auto simp: run_parse_def split: sum.splits)
  from parse_loop_only [where step = step, OF assms(1) 1] have "only_table s db (conn st)" by simp
  from only_table_trans [OF this finish_parse_only [OF 2]] show ?thesis .
qed

lemma blast_line_conn:
  "blast_line py_float contig_mag_corresp line st = Inr st' \<Longrightarrow> conn st' = conn st"
  unfolding blast_line_def Let_def
  by (auto split: if_splits sum.splits option.splits prod.splits)

lemma sam_line_conn:
  "sam_line contig_mag_corresp line st = Inr st' \<Longrightarrow> conn st' = conn st"
  unfolding sam_line_def Let_def
  by (auto split: if_splits sum.splits option.splits)

lemma bam_entry_line_conn:
  "bam_entry_line contig_mag_corresp entry st = Inr st' \<Longrightarrow> conn st' = conn st"
  unfolding bam_entry_line_def Let_def
  by (auto split: if_splits sum.splits option.splits)

lemma step_only:
  assumes "\<And>st st'. line_fn st = Inr st' \<Longrightarrow> conn st' = conn st"
    and "(case flush_full s st of Inl e \<Rightarrow> Inl e | Inr st1 \<Rightarrow> line_fn st1) = Inr st'"
  shows "only_table s (conn st) (conn st')"
proof -
  from assms(2) obtain st1 where 1: "flush_full s st = Inr st1" and 2: "line_fn st1 = Inr st'"
    by (auto split: sum.splits)
  from flush_full_only [OF 1] assms(1) [OF 2] show ?thesis by simp
qed

lemma save_reads_mapped_only:
  assumes "save_reads_mapped py_float fs mapping_file s map_format contig_mag_corresp db
     = Inr (contigs, db')"
  shows "only_table s db db'"
proof -
  have b: "\<And>line st st'. blast_step py_float contig_mag_corresp s line st = Inr st'
      \<Longrightarrow> only_table s (conn st) (conn st')"
    unfolding blast_step_def by (rule step_only [OF blast_line_conn])
  have sm: "\<And>line st st'. sam_step contig_mag_corresp s line st = Inr st'
      \<Longrightarrow> only_table s (conn st) (conn st')"
    unfolding sam_step_def by (rule step_only [OF sam_line_conn])
  have bm: "\<And>line st st'. bam_step contig_mag_corresp s line st = Inr st'
      \<Longrightarrow> only_table s (conn st) (conn st')"
    unfolding bam_step_def by (rule step_only [OF bam_entry_line_conn])
  from assms consider
    (blast) input_reads where
      "run_parse (blast_step py_float contig_mag_corresp s) s input_reads db = Inr (contigs, db')"
    | (sam) input_reads where
      "run_parse (sam_step contig_mag_corresp s) s input_reads db = Inr (contigs, db')"
    | (bam) entries where
      "run_parse (bam_step contig_mag_corresp s) s entries db = Inr (contigs, db')"
    unfolding save_reads_mapped_def
    by (auto split: if_splits option.splits file_content.splits)
  then show ?thesis
  proof cases
    case blast
    show ?thesis
      by (rule run_parse_only [where step = "blast_step py_float contig_mag_corresp s", OF b blast])
  next
    case sam
    show ?thesis
      by (rule run_parse_only [where step = "sam_step contig_mag_corresp s", OF sm sam])
  next
    case bam
    show ?thesis
      by (rule run_parse_only [where step = "bam_step contig_mag_corresp s", OF bm bam])
  qed
qed

lemma finish_parse_indexed:
  assumes "finish_parse s st = Inr (contigs, db')"
  shows "\<exists>hits. sample_tables db' s = Some (hits, True)"
  using assms
  by (auto simp: finish_parse_def create_index_def split: sum.splits option.splits if_splits)

lemma save_reads_mapped_indexed:
  assumes "save_reads_mapped py_float fs mapping_file s map_format contig_mag_corresp db
     = Inr (contigs, db')"
  shows "\<exists>hits. sample_tables db' s = Some (hits, True)"
  using assms unfolding save_reads_mapped_def run_parse_def
  by (auto split: if_splits option.splits file_content.splits sum.splits
        dest: finish_parse_indexed)

lemma read_sample_info_other:
  "sample_name \<notin> fst ` set rows \<Longrightarrow>
   fst (read_sample_info rows samples_dict last_sample) sample_name = samples_dict sample_name"
proof (induction rows arbitrary: samples_dict last_sample)
  case Nil
  then show ?case by simp
next
  case (Cons row rows)
  obtain a b c where row: "row = (a, b, c)" by (cases row)
  from Cons.prems have "a \<noteq> sample_name" "sample_name \<notin> fst ` set rows" by (auto simp: row)
  with Cons.IH show ?case by (simp add: row)
qed

lemma read_sample_info_known:
  "distinct (map fst rows) \<Longrightarrow> (sample_name, sample_id, sample_number) \<in> set rows \<Longrightarrow>
   fst (read_sample_info rows samples_dict last_sample) sample_name = Some sample_id"
proof (induction rows arbitrary: samples_dict last_sample)
  case Nil
  then show ?case by simp
next
  case (Cons row rows)
  obtain a b c where row: "row = (a, b, c)" by (cases row)
  show ?case
  proof (cases "(sample_name, sample_id, sample_number) = row")
    case True
    with Cons.prems(1) have "sample_name \<notin> fst ` set rows" by (auto simp: row)
    from read_sample_info_other [OF this] True show ?thesis by (simp add: row)
  next
    case False
    with Cons.prems have "(sample_name, sample_id, sample_number) \<in> set rows"
      and "distinct (map fst rows)" by auto
    from Cons.IH [OF this(2) this(1)] show ?thesis by (simp add: row)
  qed
qed

lemma add_sample_single:
  "add_sample py_float fs db [new_sample] map_format =
     (case add_sample_step py_float fs map_format
             (fst (read_sample_info (sample_info db) Map.empty 0))
             (read_lookup_table (lookup_table db) Map.empty) new_sample
             (db, snd (read_sample_info (sample_info db) Map.empty 0)) of
        Inl e \<Rightarrow> Inl e
      | Inr (db', n) \<Rightarrow> Inr db')"
  by (simp add: add_sample_def Let_def split: prod.splits sum.splits)

lemma add_sample_step_known:
  assumes "samples_dict new_sample = Some sample_id"
  shows "add_sample_step py_float fs map_format samples_dict contig_mag_corresp new_sample (db, last_sample) =
     (case save_reads_mapped py_float fs new_sample sample_id map_format contig_mag_corresp
             (delete_mags new_sample
                (db\<lparr>sample_tables := (sample_tables db)(sample_id \<mapsto> ([], False))\<rparr>)) of
        Inl e \<Rightarrow> Inl e
      | Inr (contigs, db2) \<Rightarrow>
          Inr (insert_mags new_sample (collect_mags (lookup_table db2) contigs []) db2, last_sample))"
  using assms by (simp add: add_sample_step_def create_table_def drop_table_def)

lemma rebuild_base_eq:
  assumes "lookup_table db2 = lookup_table db" "mag_info db2 = mag_info db"
    and "sample_info db2 = sample_info db"
    and "\<forall>t. t \<noteq> sample_id \<longrightarrow> sample_tables db2 t = sample_tables db t"
    and "filter (\<lambda>(s, m). s \<noteq> new_sample) (mags_per_sample db2)
       = filter (\<lambda>(s, m). s \<noteq> new_sample) (mags_per_sample db)"
  shows "delete_mags new_sample (db2\<lparr>sample_tables := (sample_tables db2)(sample_id \<mapsto> ([], False))\<rparr>)
     = delete_mags new_sample (db\<lparr>sample_tables := (sample_tables db)(sample_id \<mapsto> ([], False))\<rparr>)"
proof -
  have "(sample_tables db2)(sample_id \<mapsto> ([], False)) = (sample_tables db)(sample_id \<mapsto> ([], False))"
    using assms(4) by (auto simp: fun_eq_iff)
  with assms(1,2,3,5) show ?thesis
    by (cases db; cases db2) (simp add: delete_mags_def)
qed


subsection \<open>The claim on the rebuild of a sample\<close>

text \<open>
  Claim C8.  Let the source name \<open>new_sample\<close> be in \<open>sample_info\<close> with the sample id
  \<open>sample_id\<close> (the names being distinct, as the unique index has it).  When
  \<^verbatim>\<open>add_sample\<close> returns for the one file \<open>new_sample\<close>, the rows of \<open>sample_info\<close> are the
  same (the sample id is used again, no sample is added), the hits are in the table
  \<open>sample_id\<close>, which is indexed, the table of every other sample is unchanged and so are
  the membership rows of every other source name.  The former hits and membership rows of
  the sample play no part: a database that differs from \<open>db\<close> only in the table \<open>sample_id\<close>
  and in the membership rows of \<open>new_sample\<close> gives the same result, the same error
  included; so the result is the one of an ingestion into the emptied table, a
  replacement and not an addition.
\<close>

theorem add_sample_rebuilds_known_sample:
  assumes names: "distinct (map fst (sample_info db))"
    and known: "(new_sample, sample_id, sample_number) \<in> set (sample_info db)"
  shows "(\<forall>db'. add_sample py_float fs db [new_sample] map_format = Inr db' \<longrightarrow>
            sample_info db' = sample_info db
          \<and> lookup_table db' = lookup_table db \<and> mag_info db' = mag_info db
          \<and> (\<exists>hits. sample_tables db' sample_id = Some (hits, True))
          \<and> (\<forall>t. t \<noteq> sample_id \<longrightarrow> sample_tables db' t = sample_tables db t)
          \<and> filter (\<lambda>(s, m). s \<noteq> new_sample) (mags_per_sample db')
              = filter (\<lambda>(s, m). s \<noteq> new_sample) (mags_per_sample db))
     \<and> (\<forall>db2. lookup_table db2 = lookup_table db \<and> mag_info db2 = mag_info db
            \<and> sample_info db2 = sample_info db
            \<and> (\<forall>t. t \<noteq> sample_id \<longrightarrow> sample_tables db2 t = sample_tables db t)
            \<and> filter (\<lambda>(s, m). s \<noteq> new_sample) (mags_per_sample db2)
                = filter (\<lambda>(s, m). s \<noteq> new_sample) (mags_per_sample db)
          \<longrightarrow> add_sample py_float fs db2 [new_sample] map_format
              = add_sample py_float fs db [new_sample] map_format)"
proof (intro conjI allI impI)
  fix db'
  assume res: "add_sample py_float fs db [new_sample] map_format = Inr db'"
  define samples_dict where "samples_dict = fst (read_sample_info (sample_info db) Map.empty 0)"
  define last_sample where "last_sample = snd (read_sample_info (sample_info db) Map.empty 0)"
  define contig_mag_corresp where "contig_mag_corresp = read_lookup_table (lookup_table db) Map.empty"
  define base where "base = delete_mags new_sample
      (db\<lparr>sample_tables := (sample_tables db)(sample_id \<mapsto> ([], False))\<rparr>)"
  have sd: "samples_dict new_sample = Some sample_id"
    unfolding samples_dict_def by (rule read_sample_info_known [OF names known])
  from res obtain contigs db2 where
    parse: "save_reads_mapped py_float fs new_sample sample_id map_format contig_mag_corresp base
        = Inr (contigs, db2)"
    and db': "db' = insert_mags new_sample (collect_mags (lookup_table db2) contigs []) db2"
    unfolding add_sample_single samples_dict_def [symmetric] last_sample_def [symmetric]
      contig_mag_corresp_def [symmetric]
      add_sample_step_known [where samples_dict = samples_dict and new_sample = new_sample, OF sd]
      base_def [symmetric]
    by (auto split: sum.splits prod.splits)
  from save_reads_mapped_only [OF parse]
  have db2: "db2 = base\<lparr>sample_tables := (sample_tables base)(sample_id := sample_tables db2 sample_id)\<rparr>"
    by (simp add: only_table_def)
  from save_reads_mapped_indexed [OF parse] obtain hits where
    hits: "sample_tables db2 sample_id = Some (hits, True)" by blast
  have f1: "sample_info db2 = sample_info db" "lookup_table db2 = lookup_table db"
    "mag_info db2 = mag_info db"
    "mags_per_sample db2 = filter (\<lambda>(s, m). s \<noteq> new_sample) (mags_per_sample db)"
    by (subst db2, simp add: base_def delete_mags_def)+
  have f2: "\<forall>t. t \<noteq> sample_id \<longrightarrow> sample_tables db2 t = sample_tables db t"
    by (subst db2) (simp add: base_def delete_mags_def)
  show "sample_info db' = sample_info db" using f1 by (simp add: db' insert_mags_def)
  show "lookup_table db' = lookup_table db" using f1 by (simp add: db' insert_mags_def)
  show "mag_info db' = mag_info db" using f1 by (simp add: db' insert_mags_def)
  show "\<exists>hits. sample_tables db' sample_id = Some (hits, True)"
    using hits by (simp add: db' insert_mags_def)
  show "\<And>t. t \<noteq> sample_id \<Longrightarrow> sample_tables db' t = sample_tables db t"
    using f2 by (simp add: db' insert_mags_def)
  show "filter (\<lambda>(s, m). s \<noteq> new_sample) (mags_per_sample db')
      = filter (\<lambda>(s, m). s \<noteq> new_sample) (mags_per_sample db)"
    using f1(4) by (simp add: db' insert_mags_def filter_empty_conv)
next
  fix db2 :: database
  assume a: "lookup_table db2 = lookup_table db \<and> mag_info db2 = mag_info db
            \<and> sample_info db2 = sample_info db
            \<and> (\<forall>t. t \<noteq> sample_id \<longrightarrow> sample_tables db2 t = sample_tables db t)
            \<and> filter (\<lambda>(s, m). s \<noteq> new_sample) (mags_per_sample db2)
                = filter (\<lambda>(s, m). s \<noteq> new_sample) (mags_per_sample db)"
  have sd: "fst (read_sample_info (sample_info db) Map.empty 0) new_sample = Some sample_id"
    by (rule read_sample_info_known [OF names known])
  have base: "delete_mags new_sample (db2\<lparr>sample_tables := (sample_tables db2)(sample_id \<mapsto> ([], False))\<rparr>)
     = delete_mags new_sample (db\<lparr>sample_tables := (sample_tables db)(sample_id \<mapsto> ([], False))\<rparr>)"
    using a by (intro rebuild_base_eq) simp_all
  show "add_sample py_float fs db2 [new_sample] map_format
      = add_sample py_float fs db [new_sample] map_format"
    unfolding add_sample_single using a sd base
    by (simp add: add_sample_step_known)
qed

theorem add_sample_rebuilds_known_sample_witness:
  "distinct (map fst [(''reads.blast'', ''sample_1'', 1 :: int), (''other.blast'', ''sample_2'', 2)])
   \<and> (case add_sample (\<lambda>s. if s = ''98.5'' then Some (197 / 2) else None)
          [''reads.blast'' \<mapsto> TextFile
             [tab_line [''q1'', ''ctgA'', ''98.5'', ''51'', ''0'', ''0'', ''1'', ''51'', ''150'', ''100'', ''1e-20'', ''90'']]]
          \<lparr>lookup_table = [(''mag1'', 1, ''ctgA'', 1)], mag_info = [(1, 1, 2350)],
           sample_info = [(''reads.blast'', ''sample_1'', 1), (''other.blast'', ''sample_2'', 2)],
           mags_per_sample = [(''reads.blast'', ''mag1''), (''other.blast'', ''mag1'')],
           sample_tables = [''sample_1'' \<mapsto> ([(1, 1, 50, 1, 10)], True),
                            ''sample_2'' \<mapsto> ([(1, 1, 99, 5, 6)], True)]\<rparr>
          [''reads.blast''] ''blast'' of
        Inl e \<Rightarrow> False
      | Inr db' \<Rightarrow>
          sample_info db' = [(''reads.blast'', ''sample_1'', 1), (''other.blast'', ''sample_2'', 2)]
          \<and> sample_tables db' ''sample_1'' = Some ([(1, 1, 197 / 2, 100, 150)], True)
          \<and> sample_tables db' ''sample_2'' = Some ([(1, 1, 99, 5, 6)], True)
          \<and> mags_per_sample db' = [(''other.blast'', ''mag1''), (''reads.blast'', ''mag1'')])"
proof -
  let ?pf = "\<lambda>s. if s = ''98.5'' then Some (197 / 2 :: rat) else None"
  let ?fs = "[''reads.blast'' \<mapsto> TextFile
             [tab_line [''q1'', ''ctgA'', ''98.5'', ''51'', ''0'', ''0'', ''1'', ''51'', ''150'', ''100'', ''1e-20'', ''90'']]]"
  let ?db = "\<lparr>lookup_table = [(''mag1'', 1, ''ctgA'', 1)], mag_info = [(1, 1, 2350)],
           sample_info = [(''reads.blast'', ''sample_1'', 1), (''other.blast'', ''sample_2'', 2)],
           mags_per_sample = [(''reads.blast'', ''mag1''), (''other.blast'', ''mag1'')],
           sample_tables = [''sample_1'' \<mapsto> ([(1, 1, 50, 1, 10)], True),
                            ''sample_2'' \<mapsto> ([(1, 1, 99, 5, 6)], True)]\<rparr>"
  have d: "distinct (map fst (sample_info ?db))" by simp
  have k: "(''reads.blast'', ''sample_1'', 1) \<in> set (sample_info ?db)" by simp
  have e: "case add_sample ?pf ?fs ?db [''reads.blast''] ''blast'' of
        Inl e \<Rightarrow> False
      | Inr db' \<Rightarrow>
          sample_tables db' ''sample_1'' = Some ([(1, 1, 197 / 2, 100, 150)], True)
          \<and> mags_per_sample db' = [(''other.blast'', ''mag1''), (''reads.blast'', ''mag1'')]"
    by code_simp
  then obtain db' where r: "add_sample ?pf ?fs ?db [''reads.blast''] ''blast'' = Inr db'"
    and t1: "sample_tables db' ''sample_1'' = Some ([(1, 1, 197 / 2, 100, 150)], True)"
    and m: "mags_per_sample db' = [(''other.blast'', ''mag1''), (''reads.blast'', ''mag1'')]"
    by (auto split: sum.splits)
  from add_sample_rebuilds_known_sample [where py_float = ?pf and fs = ?fs and map_format = "''blast''",
      OF d k] r
  have si: "sample_info db' = sample_info ?db"
    and other: "\<forall>t. t \<noteq> ''sample_1'' \<longrightarrow> sample_tables db' t = sample_tables ?db t"
    by blast+
  from other have t2: "sample_tables db' ''sample_2'' = Some ([(1, 1, 99, 5, 6)], True)" by simp
  from si have si': "sample_info db' = [(''reads.blast'', ''sample_1'', 1), (''other.blast'', ''sample_2'', 2)]"
    by simp
  show ?thesis using r t1 t2 m si' by simp
qed

end
